theory Spec2Isabelle
  imports Complex_Main "HOL-Library.AList"
begin

section \<open>The BLS wage pipeline (pipeline/bls\_pipeline.py)\<close>

text \<open>
  A shallow embedding of the wage pipeline. Python strings are HOL strings: one
  \<^typ>\<open>char\<close> per code point, for the code points 0 to 255. Python integers are
  \<^typ>\<open>int\<close>. A Python exception is a value of \<open>py_error\<close>, and a function that may
  raise returns \<open>py_error + 'a\<close> with \<open>Inl\<close> for the exception.
\<close>

subsection \<open>Exceptions\<close>

datatype py_error =
    AttributeError
  | TypeError
  | KeyError
  | IndexError
  | ValueError
  | OverflowError
  | JSONDecodeError
  | EmptyCatalogError
  | DatabaseError string

subsection \<open>Strings\<close>

definition is_digit :: "char \<Rightarrow> bool" where
  "is_digit c = (c \<in> set ''0123456789'')"

definition digit_val :: "char \<Rightarrow> nat" where
  "digit_val c = of_char c - 48"

text \<open>\<^verbatim>\<open>str.isspace\<close> on the code points below 256.\<close>

definition is_space :: "char \<Rightarrow> bool" where
  "is_space c =
     (let n = (of_char c :: nat)
      in (9 \<le> n \<and> n \<le> 13) \<or> (28 \<le> n \<and> n \<le> 32) \<or> n = 133 \<or> n = 160)"

text \<open>\<^verbatim>\<open>str.strip()\<close> with no argument.\<close>

definition strip :: "string \<Rightarrow> string" where
  "strip s = rev (dropWhile is_space (rev (dropWhile is_space s)))"

text \<open>
  The whitespace that \<^verbatim>\<open>int(str)\<close> and \<^verbatim>\<open>float(str)\<close> skip at both ends: the
  ASCII whitespace, and the two other whitespace code points below 256.
\<close>

definition is_num_space :: "char \<Rightarrow> bool" where
  "is_num_space c =
     (let n = (of_char c :: nat)
      in (9 \<le> n \<and> n \<le> 13) \<or> n = 32 \<or> n = 133 \<or> n = 160)"

definition num_strip :: "string \<Rightarrow> string" where
  "num_strip s = rev (dropWhile is_num_space (rev (dropWhile is_num_space s)))"

text \<open>\<^verbatim>\<open>str.zfill(width)\<close>: a leading sign stays in front of the padding.\<close>

definition zfill :: "nat \<Rightarrow> string \<Rightarrow> string" where
  "zfill width s =
     (if width \<le> length s then s
      else case s of
             [] \<Rightarrow> replicate width CHR ''0''
           | c # r \<Rightarrow>
               if c = CHR ''+'' \<or> c = CHR ''-''
               then c # replicate (width - length s) CHR ''0'' @ r
               else replicate (width - length s) CHR ''0'' @ s)"

text \<open>\<^verbatim>\<open>s.replace("-", "")\<close>: every dash is dropped.\<close>

definition remove_dashes :: "string \<Rightarrow> string" where
  "remove_dashes s = filter (\<lambda>c. c \<noteq> CHR ''-'') s"

subsection \<open>Constants\<close>

text \<open>\<^verbatim>\<open>MSA_CODES\<close> and \<^verbatim>\<open>DATA_TYPES\<close>, in the order the dict literals list them.\<close>

definition MSA_CODES :: "(string \<times> string) list" where
  "MSA_CODES =
     [(''Austin TX'', ''12420''),
      (''New York NY'', ''35620''),
      (''San Francisco CA'', ''41860''),
      (''Washington DC'', ''47900''),
      (''Denver CO'', ''19740'')]"

definition DATA_TYPES :: "(string \<times> string) list" where
  "DATA_TYPES =
     [(''03'', ''annual_mean''),
      (''11'', ''pct_10''),
      (''12'', ''pct_25''),
      (''13'', ''pct_50''),
      (''14'', ''pct_75''),
      (''15'', ''pct_90'')]"

definition INDUSTRY_CODE :: string where
  "INDUSTRY_CODE = ''000000''"

text \<open>\<^verbatim>\<open>BATCH_SIZE = 50 if BLS_REGKEY else 25\<close>.\<close>

definition BATCH_SIZE :: "string \<Rightarrow> nat" where
  "BATCH_SIZE regkey = (if regkey \<noteq> [] then 50 else 25)"

subsection \<open>Step 2: series identifiers\<close>

definition soc_to_digits :: "string \<Rightarrow> string" where
  "soc_to_digits soc_code = zfill 6 (remove_dashes soc_code)"

definition msa_to_area_code :: "string \<Rightarrow> string" where
  "msa_to_area_code msa_code = zfill 7 msa_code"

definition build_series_id :: "string \<Rightarrow> string \<Rightarrow> string \<Rightarrow> string" where
  "build_series_id msa_code soc_code data_type =
     ''OEUM'' @ msa_to_area_code msa_code @ INDUSTRY_CODE @ soc_to_digits soc_code @ data_type"

text \<open>A series descriptor: the dict that \<^verbatim>\<open>build_all_series\<close> appends.\<close>

record descriptor =
  series_id :: string
  msa_name :: string
  msa_code :: string
  soc_code :: string
  soc_title :: string
  data_type :: string
  col_name :: string

text \<open>The dict literal in the innermost loop of \<^verbatim>\<open>build_all_series\<close>.\<close>

definition mk_descriptor ::
  "(string \<times> string) \<times> (string \<times> string) \<times> (string \<times> string) \<Rightarrow> descriptor" where
  "mk_descriptor t =
     (case t of ((mname, mcode), (scode, stitle), (dt_code, cname)) \<Rightarrow>
        \<lparr>series_id = build_series_id mcode scode dt_code,
         msa_name = mname,
         msa_code = mcode,
         soc_code = scode,
         soc_title = stitle,
         data_type = dt_code,
         col_name = cname\<rparr>)"

text \<open>
  The catalog \<^verbatim>\<open>soc_map\<close> is a dict from code to title: an association list in
  insertion order whose keys are distinct. The three nested loops run over
  \<^verbatim>\<open>MSA_CODES\<close>, the catalog and \<^verbatim>\<open>DATA_TYPES\<close>, in this order.
\<close>

definition build_all_series :: "(string \<times> string) list \<Rightarrow> descriptor list" where
  "build_all_series soc_map =
     concat (map (\<lambda>msa.
       concat (map (\<lambda>soc.
         map (\<lambda>dt. mk_descriptor (msa, soc, dt)) DATA_TYPES) soc_map)) MSA_CODES)"

text \<open>The standard form of an occupation code: two digits, a dash, four digits.\<close>

definition soc_form :: "string \<Rightarrow> bool" where
  "soc_form s =
     (case s of
        [a, b, c, d, e, f, g] \<Rightarrow>
          is_digit a \<and> is_digit b \<and> c = CHR ''-'' \<and>
          is_digit d \<and> is_digit e \<and> is_digit f \<and> is_digit g
      | _ \<Rightarrow> False)"

definition all_digits :: "string \<Rightarrow> bool" where
  "all_digits s = list_all is_digit s"

subsection \<open>Numbers\<close>

text \<open>
  A Python float. A finite value is kept as the exact rational it denotes: rounding to
  binary64 is not modelled.
\<close>

datatype pyfloat = Finite rat | PosInf | NegInf | NaN

text \<open>
  \<^verbatim>\<open>digitpart ::= digit (["_"] digit)*\<close>: the longest digit part at the front of the
  text, as its digits, and the rest of the text.
\<close>

fun digitpart :: "string \<Rightarrow> string \<times> string" where
  "digitpart [] = ([], [])"
| "digitpart (c # cs) =
     (if \<not> is_digit c then ([], c # cs)
      else case cs of
             [] \<Rightarrow> ([c], [])
           | u # cs' \<Rightarrow>
               if is_digit u then (let (ds, r) = digitpart cs in (c # ds, r))
               else if u = CHR ''_'' then
                 (case cs' of
                    [] \<Rightarrow> ([c], cs)
                  | d # _ \<Rightarrow>
                      if is_digit d then (let (ds, r) = digitpart cs' in (c # ds, r))
                      else ([c], cs))
               else ([c], cs))"

definition digits_val :: "string \<Rightarrow> nat" where
  "digits_val ds = foldl (\<lambda>n c. 10 * n + digit_val c) 0 ds"

definition take_sign :: "string \<Rightarrow> bool \<times> string" where
  "take_sign s =
     (case s of
        [] \<Rightarrow> (False, [])
      | c # r \<Rightarrow>
          if c = CHR ''-'' then (True, r)
          else if c = CHR ''+'' then (False, r)
          else (False, s))"

text \<open>
  \<^verbatim>\<open>int(s)\<close> for a string: surrounding whitespace, a sign, one digit part. With the
  default setting of the interpreter a text of more than 4300 digits is refused.
\<close>

definition py_int_str :: "string \<Rightarrow> py_error + int" where
  "py_int_str s =
     (let (neg, body) = take_sign (num_strip s);
          (ds, rest) = digitpart body
      in if ds \<noteq> [] \<and> rest = [] \<and> length ds \<le> 4300
         then Inr (if neg then - int (digits_val ds) else int (digits_val ds))
         else Inl ValueError)"

definition ascii_lower :: "char \<Rightarrow> char" where
  "ascii_lower c =
     (let n = (of_char c :: nat)
      in if 65 \<le> n \<and> n \<le> 90 then char_of (n + 32) else c)"

definition scale10 :: "nat \<Rightarrow> int \<Rightarrow> rat" where
  "scale10 m e = (if 0 \<le> e then of_nat m * 10 ^ nat e else of_nat m / 10 ^ nat (- e))"

text \<open>The text after the mantissa: nothing, or \<^verbatim>\<open>("e" | "E") ["+" | "-"] digitpart\<close>.\<close>

definition parse_exponent :: "string \<Rightarrow> int option" where
  "parse_exponent s =
     (case s of
        [] \<Rightarrow> Some 0
      | c # r \<Rightarrow>
          if c = CHR ''e'' \<or> c = CHR ''E'' then
            (let (neg, r') = take_sign r;
                 (ds, rest) = digitpart r'
             in if ds \<noteq> [] \<and> rest = []
                then Some (if neg then - int (digits_val ds) else int (digits_val ds))
                else None)
          else None)"

text \<open>
  \<^verbatim>\<open>floatnumber ::= ([digitpart] "." digitpart | digitpart ["."]) [exponent]\<close>.
\<close>

definition floatnumber :: "string \<Rightarrow> rat option" where
  "floatnumber s =
     (let (ip, r1) = digitpart s
      in case r1 of
           [] \<Rightarrow> if ip = [] then None else Some (of_nat (digits_val ip))
         | c # r2 \<Rightarrow>
             if c = CHR ''.'' then
               (let (fp, r3) = digitpart r2
                in if ip = [] \<and> fp = [] then None
                   else case parse_exponent r3 of
                          None \<Rightarrow> None
                        | Some e \<Rightarrow> Some (scale10 (digits_val (ip @ fp)) (e - int (length fp))))
             else if ip = [] then None
             else case parse_exponent r1 of
                    None \<Rightarrow> None
                  | Some e \<Rightarrow> Some (scale10 (digits_val ip) e))"

text \<open>\<^verbatim>\<open>float(s)\<close> for a string; it raises \<^verbatim>\<open>ValueError\<close> and nothing else.\<close>

definition py_float :: "string \<Rightarrow> py_error + pyfloat" where
  "py_float s =
     (let (neg, body) = take_sign (num_strip s);
          lb = map ascii_lower body
      in if lb = ''inf'' \<or> lb = ''infinity'' then Inr (if neg then NegInf else PosInf)
         else if lb = ''nan'' then Inr NaN
         else case floatnumber body of
                None \<Rightarrow> Inl ValueError
              | Some r \<Rightarrow> Inr (Finite (if neg then - r else r)))"

subsection \<open>JSON values and the dict protocol\<close>

text \<open>
  What \<^verbatim>\<open>resp.json()\<close> returns. An object is a Python dict: an association list in
  insertion order, read with \<^const>\<open>map_of\<close>.
\<close>

datatype json =
    JNull
  | JBool bool
  | JInt int
  | JFloat pyfloat
  | JStr string
  | JArr "json list"
  | JObj "(string \<times> json) list"

definition bind_err :: "'e + 'a \<Rightarrow> ('a \<Rightarrow> 'e + 'b) \<Rightarrow> 'e + 'b" where
  "bind_err x f = (case x of Inl e \<Rightarrow> Inl e | Inr v \<Rightarrow> f v)"

text \<open>\<^verbatim>\<open>d.get(k, default)\<close>: only a dict has the method.\<close>

definition py_get :: "json \<Rightarrow> string \<Rightarrow> json \<Rightarrow> py_error + json" where
  "py_get d k dflt =
     (case d of
        JObj kvs \<Rightarrow> Inr (case map_of kvs k of None \<Rightarrow> dflt | Some v \<Rightarrow> v)
      | _ \<Rightarrow> Inl AttributeError)"

text \<open>The truth value of an object, as \<^verbatim>\<open>not x\<close> and \<^verbatim>\<open>if x\<close> read it.\<close>

definition truthy :: "json \<Rightarrow> bool" where
  "truthy x =
     (case x of
        JNull \<Rightarrow> False
      | JBool b \<Rightarrow> b
      | JInt n \<Rightarrow> n \<noteq> 0
      | JFloat f \<Rightarrow> f \<noteq> Finite 0
      | JStr s \<Rightarrow> s \<noteq> []
      | JArr xs \<Rightarrow> xs \<noteq> []
      | JObj kvs \<Rightarrow> kvs \<noteq> [])"

text \<open>\<^verbatim>\<open>x[0]\<close>.\<close>

definition py_first :: "json \<Rightarrow> py_error + json" where
  "py_first x =
     (case x of
        JArr xs \<Rightarrow> (case xs of [] \<Rightarrow> Inl IndexError | y # _ \<Rightarrow> Inr y)
      | JStr s \<Rightarrow> (case s of [] \<Rightarrow> Inl IndexError | c # _ \<Rightarrow> Inr (JStr [c]))
      | JObj kvs \<Rightarrow> Inl KeyError
      | _ \<Rightarrow> Inl TypeError)"

text \<open>\<^verbatim>\<open>int(x)\<close>.\<close>

definition py_int :: "json \<Rightarrow> py_error + int" where
  "py_int x =
     (case x of
        JStr s \<Rightarrow> py_int_str s
      | JInt n \<Rightarrow> Inr n
      | JBool b \<Rightarrow> Inr (if b then 1 else 0)
      | JFloat f \<Rightarrow>
          (case f of
             Finite r \<Rightarrow> Inr (if 0 \<le> r then \<lfloor>r\<rfloor> else \<lceil>r\<rceil>)
           | NaN \<Rightarrow> Inl ValueError
           | _ \<Rightarrow> Inl OverflowError)
      | _ \<Rightarrow> Inl TypeError)"

text \<open>
  \<^verbatim>\<open>series_meta.get(sid)\<close> on a dict whose keys are strings: a list or a dict cannot be
  hashed, and no other value equals a string.
\<close>

definition meta_get :: "(string \<rightharpoonup> descriptor) \<Rightarrow> json \<Rightarrow> py_error + descriptor option" where
  "meta_get series_meta sid =
     (case sid of
        JStr s \<Rightarrow> Inr (series_meta s)
      | JArr _ \<Rightarrow> Inl TypeError
      | JObj _ \<Rightarrow> Inl TypeError
      | _ \<Rightarrow> Inr None)"

subsection \<open>Step 4: parsing a response\<close>

definition safe_wage :: "json \<Rightarrow> py_error + pyfloat option" where
  "safe_wage value_str =
     (case value_str of
        JStr s \<Rightarrow>
          (let v = strip s
           in if v \<in> set [''-'', ''**'', ''N/A'', ''NA'', '''']
              then Inr None
              else case py_float v of
                     Inr f \<Rightarrow> Inr (Some f)
                   | Inl e \<Rightarrow> if e = ValueError then Inr None else Inl e)
      | _ \<Rightarrow> Inl AttributeError)"

text \<open>
  An aggregated row: the five identity entries of the dict that \<^verbatim>\<open>parse_response\<close>
  creates for a key, and its statistic entries by column name. The column name of a
  descriptor is one of the six of \<^verbatim>\<open>DATA_TYPES\<close>, none of them an identity entry, so
  the two groups are kept apart.
\<close>

record wage_row =
  row_soc_code :: string
  row_soc_title :: string
  row_msa_code :: string
  row_msa_name :: string
  row_survey_year :: int
  wages :: "string \<rightharpoonup> pyfloat"

type_synonym agg_key = "string \<times> string \<times> int"

text \<open>A dict from key to row, in insertion order.\<close>

type_synonym aggregation = "(agg_key \<times> wage_row) list"

definition new_row :: "descriptor \<Rightarrow> int \<Rightarrow> wage_row" where
  "new_row m year =
     \<lparr>row_soc_code = soc_code m,
      row_soc_title = soc_title m,
      row_msa_code = msa_code m,
      row_msa_name = msa_name m,
      row_survey_year = year,
      wages = Map.empty\<rparr>"

text \<open>
  The end of the loop body: the key's row is created when the key is new, then the
  statistic's column is set.
\<close>

definition add_wage :: "descriptor \<Rightarrow> int \<Rightarrow> pyfloat \<Rightarrow> aggregation \<Rightarrow> aggregation" where
  "add_wage m year wage partial =
     (let key = (soc_code m, msa_code m, year);
          row = (case map_of partial key of None \<Rightarrow> new_row m year | Some r \<Rightarrow> r)
      in AList.update key (row\<lparr>wages := (wages row)(col_name m \<mapsto> wage)\<rparr>) partial)"

text \<open>\<^verbatim>\<open>int(point.get("year", SURVEY_YEAR))\<close>.\<close>

definition point_year :: "int \<Rightarrow> json \<Rightarrow> py_error + int" where
  "point_year SURVEY_YEAR point =
     bind_err (py_get point ''year'' (JInt SURVEY_YEAR)) py_int"

text \<open>
  The loop body up to the update of \<^verbatim>\<open>partial\<close>: an exception, \<open>None\<close> where the
  body reaches \<^verbatim>\<open>continue\<close>, or the descriptor, year and wage that are merged.
\<close>

definition series_value ::
  "int \<Rightarrow> (string \<rightharpoonup> descriptor) \<Rightarrow> json \<Rightarrow> py_error + (descriptor \<times> int \<times> pyfloat) option" where
  "series_value SURVEY_YEAR series_meta series =
     bind_err (py_get series ''seriesID'' (JStr [])) (\<lambda>sid.
     bind_err (meta_get series_meta sid) (\<lambda>meta.
       case meta of
         None \<Rightarrow> Inr None
       | Some m \<Rightarrow>
           bind_err (py_get series ''data'' (JArr [])) (\<lambda>data_points.
             if \<not> truthy data_points then Inr None
             else
               bind_err (py_first data_points) (\<lambda>point.
               bind_err (point_year SURVEY_YEAR point) (\<lambda>year.
               bind_err (py_get point ''value'' (JStr [])) (\<lambda>v.
               bind_err (safe_wage v) (\<lambda>wage.
                 case wage of
                   None \<Rightarrow> Inr None
                 | Some w \<Rightarrow> Inr (Some (m, year, w)))))))))"

definition parse_series ::
  "int \<Rightarrow> (string \<rightharpoonup> descriptor) \<Rightarrow> json \<Rightarrow> aggregation \<Rightarrow> py_error + aggregation" where
  "parse_series SURVEY_YEAR series_meta series partial =
     bind_err (series_value SURVEY_YEAR series_meta series) (\<lambda>c.
       case c of
         None \<Rightarrow> Inr partial
       | Some (m, year, wage) \<Rightarrow> Inr (add_wage m year wage partial))"

fun parse_series_list ::
  "int \<Rightarrow> (string \<rightharpoonup> descriptor) \<Rightarrow> json list \<Rightarrow> aggregation \<Rightarrow> py_error + aggregation" where
  "parse_series_list SURVEY_YEAR series_meta [] partial = Inr partial"
| "parse_series_list SURVEY_YEAR series_meta (series # rest) partial =
     bind_err (parse_series SURVEY_YEAR series_meta series partial)
       (parse_series_list SURVEY_YEAR series_meta rest)"

text \<open>\<^verbatim>\<open>response_data.get("Results", {}).get("series", [])\<close>.\<close>

definition results_series :: "json \<Rightarrow> py_error + json" where
  "results_series response_data =
     bind_err (py_get response_data ''Results'' (JObj [])) (\<lambda>results.
       py_get results ''series'' (JArr []))"

definition parse_response ::
  "int \<Rightarrow> json \<Rightarrow> (string \<rightharpoonup> descriptor) \<Rightarrow> py_error + aggregation" where
  "parse_response SURVEY_YEAR response_data series_meta =
     bind_err (results_series response_data) (\<lambda>series_list.
       case series_list of
         JArr xs \<Rightarrow> parse_series_list SURVEY_YEAR series_meta xs []
       | _ \<Rightarrow> Inr [])"

subsection \<open>Step 3: one request\<close>

text \<open>
  What the POST of one batch does: \<^verbatim>\<open>raise_for_status\<close> raises an HTTP error, the
  request raises another \<^verbatim>\<open>RequestException\<close>, the body is not JSON (so
  \<^verbatim>\<open>resp.json()\<close> raises, outside the \<^verbatim>\<open>try\<close>), or the body decodes to a value.
\<close>

datatype http_outcome = HTTPError | RequestException | InvalidBody | Body json

fun is_prefix :: "string \<Rightarrow> string \<Rightarrow> bool" where
  "is_prefix [] s = True"
| "is_prefix (c # cs) [] = False"
| "is_prefix (c # cs) (d # ds) = (c = d \<and> is_prefix cs ds)"

fun is_substring :: "string \<Rightarrow> string \<Rightarrow> bool" where
  "is_substring k [] = (k = [])"
| "is_substring k (c # cs) = (is_prefix k (c # cs) \<or> is_substring k cs)"

text \<open>\<^verbatim>\<open>k in data\<close> for a string \<open>k\<close>.\<close>

definition py_in :: "string \<Rightarrow> json \<Rightarrow> py_error + bool" where
  "py_in k data =
     (case data of
        JObj kvs \<Rightarrow> Inr (k \<in> fst ` set kvs)
      | JArr xs \<Rightarrow> Inr (JStr k \<in> set xs)
      | JStr s \<Rightarrow> Inr (is_substring k s)
      | _ \<Rightarrow> Inl TypeError)"

text \<open>\<^verbatim>\<open>data[k]\<close> for a string \<open>k\<close>.\<close>

definition py_item :: "json \<Rightarrow> string \<Rightarrow> py_error + json" where
  "py_item data k =
     (case data of
        JObj kvs \<Rightarrow> (case map_of kvs k of None \<Rightarrow> Inl KeyError | Some v \<Rightarrow> Inr v)
      | _ \<Rightarrow> Inl TypeError)"

text \<open>\<^verbatim>\<open>list(data.keys())\<close>, read for the warning only.\<close>

definition py_keys :: "json \<Rightarrow> py_error + string list" where
  "py_keys data = (case data of JObj kvs \<Rightarrow> Inr (map fst kvs) | _ \<Rightarrow> Inl AttributeError)"

text \<open>
  \<^verbatim>\<open>fetch_bls_batch\<close>, as a function of what the request did. \<open>Inr None\<close> is the
  \<^verbatim>\<open>None\<close> it returns; a status other than \<^verbatim>\<open>REQUEST_SUCCEEDED\<close> is logged and the
  payload is returned all the same.
\<close>

definition fetch_bls_batch :: "http_outcome \<Rightarrow> py_error + json option" where
  "fetch_bls_batch outcome =
     (case outcome of
        HTTPError \<Rightarrow> Inr None
      | RequestException \<Rightarrow> Inr None
      | InvalidBody \<Rightarrow> Inl JSONDecodeError
      | Body data \<Rightarrow>
          bind_err (py_in ''status'' data) (\<lambda>has_status.
          bind_err (if has_status then py_in ''Results'' data else Inr False) (\<lambda>has_both.
            if \<not> has_both
            then bind_err (py_keys data) (\<lambda>_. Inr None)
            else
              bind_err (py_item data ''status'') (\<lambda>status.
              bind_err (if status \<noteq> JStr ''REQUEST_SUCCEEDED''
                        then py_get data ''message'' (JArr []) else Inr JNull) (\<lambda>_.
                Inr (Some data))))))"

subsection \<open>Step 5: the wage table\<close>

record db_row =
  db_soc_code :: string
  db_soc_title :: string
  db_msa_code :: string
  db_msa_name :: string
  reference_year :: int
  annual_mean :: "pyfloat option"
  pct_10 :: "pyfloat option"
  pct_25 :: "pyfloat option"
  pct_50 :: "pyfloat option"
  pct_75 :: "pyfloat option"
  pct_90 :: "pyfloat option"
  data_source :: string
  pipeline_run_id :: "int option"

text \<open>The parameter dict that \<^verbatim>\<open>load_wage_rows\<close> builds for one row.\<close>

definition insert_record :: "wage_row \<Rightarrow> db_row" where
  "insert_record row_data =
     \<lparr>db_soc_code = row_soc_code row_data,
      db_soc_title = row_soc_title row_data,
      db_msa_code = row_msa_code row_data,
      db_msa_name = row_msa_name row_data,
      reference_year = row_survey_year row_data,
      annual_mean = wages row_data ''annual_mean'',
      pct_10 = wages row_data ''pct_10'',
      pct_25 = wages row_data ''pct_25'',
      pct_50 = wages row_data ''pct_50'',
      pct_75 = wages row_data ''pct_75'',
      pct_90 = wages row_data ''pct_90'',
      data_source = ''BLS_OEWS'',
      pipeline_run_id = None\<rparr>"

text \<open>The columns of \<^verbatim>\<open>UNIQUE (soc_code, msa_code, reference_year)\<close>.\<close>

definition unique_key :: "db_row \<Rightarrow> agg_key" where
  "unique_key r = (db_soc_code r, db_msa_code r, reference_year r)"

text \<open>
  \<^verbatim>\<open>BLS_UPSERT_SQL\<close> on a table: \<^verbatim>\<open>ON CONFLICT ... DO NOTHING\<close> leaves the table as
  it is and reports no row; otherwise the row is added and \<^verbatim>\<open>rowcount\<close> is 1.
\<close>

definition upsert :: "db_row \<Rightarrow> db_row list \<Rightarrow> db_row list \<times> nat" where
  "upsert r tbl =
     (if unique_key r \<in> unique_key ` set tbl then (tbl, 0) else (tbl @ [r], 1))"

text \<open>
  The loop of \<^verbatim>\<open>load_wage_rows\<close> inside the transaction. \<open>fault i r\<close> is the exception
  that the \<open>i\<close>-th \<^verbatim>\<open>cur.execute\<close> of the load raises for the record \<open>r\<close>, if any.
\<close>

fun execute_all ::
  "(nat \<Rightarrow> db_row \<Rightarrow> py_error option) \<Rightarrow> nat \<Rightarrow> wage_row list \<Rightarrow> db_row list \<times> nat \<Rightarrow>
   py_error + db_row list \<times> nat" where
  "execute_all fault i [] (tbl, written) = Inr (tbl, written)"
| "execute_all fault i (row_data # rest) (tbl, written) =
     (case fault i (insert_record row_data) of
        Some e \<Rightarrow> Inl e
      | None \<Rightarrow>
          (let (tbl', n) = upsert (insert_record row_data) tbl
           in execute_all fault (Suc i) rest (tbl', if n = 1 then written + 1 else written)))"

text \<open>
  \<^verbatim>\<open>load_wage_rows\<close>: the committed table after the call, with the exception that
  propagates or the number of rows written. An exception of an insert or of the commit
  rolls the transaction back: the committed table is the one before the call.
\<close>

definition load_wage_rows ::
  "(nat \<Rightarrow> db_row \<Rightarrow> py_error option) \<Rightarrow> py_error option \<Rightarrow> db_row list \<Rightarrow> aggregation \<Rightarrow>
   (py_error + nat) \<times> db_row list" where
  "load_wage_rows fault commit_fault tbl aggregated =
     (case execute_all fault 0 (map snd aggregated) (tbl, 0) of
        Inl e \<Rightarrow> (Inl e, tbl)
      | Inr (tbl', written) \<Rightarrow>
          (case commit_fault of
             Some e \<Rightarrow> (Inl e, tbl)
           | None \<Rightarrow> (Inr written, tbl')))"

subsection \<open>The audit row\<close>

datatype run_status = SUCCESS | FAILED

record audit_row =
  pipeline_type :: string
  status :: run_status
  records_requested :: nat
  records_received :: nat
  records_written :: nat
  discrepancy_flag :: bool
  error_message :: "py_error option"

text \<open>
  \<^verbatim>\<open>log_pipeline_run\<close>: one row is inserted and committed; when the insert or its
  commit raises, the exception is swallowed and the log is left as it was. The
  duration and the timestamp of the row are not modelled.
\<close>

definition log_pipeline_run ::
  "bool \<Rightarrow> audit_row list \<Rightarrow> string \<Rightarrow> run_status \<Rightarrow> nat \<Rightarrow> nat \<Rightarrow> nat \<Rightarrow> py_error option \<Rightarrow>
   audit_row list" where
  "log_pipeline_run audit_fault run_log ptype st requested received written err =
     (if audit_fault then run_log
      else run_log @
        [\<lparr>pipeline_type = ptype,
          status = st,
          records_requested = requested,
          records_received = received,
          records_written = written,
          discrepancy_flag = (received \<noteq> written),
          error_message = err\<rparr>])"

subsection \<open>The run\<close>

text \<open>\<^verbatim>\<open>master.update(partial)\<close>: each entry of \<open>partial\<close> is stored under its key.\<close>

definition dict_update :: "('k \<times> 'v) list \<Rightarrow> ('k \<times> 'v) list \<Rightarrow> ('k \<times> 'v) list" where
  "dict_update master partial =
     foldl (\<lambda>d item. AList.update (fst item) (snd item) d) master partial"

text \<open>\<^verbatim>\<open>{s["series_id"]: s for s in all_series}\<close>: a later descriptor replaces an earlier one.\<close>

definition series_meta_of :: "descriptor list \<Rightarrow> (string \<rightharpoonup> descriptor)" where
  "series_meta_of all_series = map_of (rev (map (\<lambda>s. (series_id s, s)) all_series))"

text \<open>
  \<^verbatim>\<open>[all_series[i : i + n] for i in range(0, total_series, n)]\<close>, for a batch size
  \<open>n\<close> above zero.
\<close>

definition batches_of :: "nat \<Rightarrow> 'a list \<Rightarrow> 'a list list" where
  "batches_of n xs = map (\<lambda>j. take n (drop (j * n) xs)) [0..<(length xs + n - 1) div n]"

text \<open>Iterating over a value in a comprehension.\<close>

definition py_iter :: "json \<Rightarrow> py_error + json list" where
  "py_iter x =
     (case x of
        JArr xs \<Rightarrow> Inr xs
      | JStr s \<Rightarrow> Inr (map (\<lambda>c. JStr [c]) s)
      | JObj kvs \<Rightarrow> Inr (map (\<lambda>kv. JStr (fst kv)) kvs)
      | _ \<Rightarrow> Inl TypeError)"

text \<open>
  One series of the set comprehension \<^verbatim>\<open>returned_ids\<close>: its identifier when its
  data is not empty; the identifier joins a set, so it must be hashable.
\<close>

definition returned_id :: "json \<Rightarrow> py_error + json option" where
  "returned_id series =
     bind_err (py_get series ''seriesID'' (JStr [])) (\<lambda>sid.
     bind_err (py_get series ''data'' JNull) (\<lambda>d.
       if truthy d
       then (case sid of
               JArr _ \<Rightarrow> Inl TypeError
             | JObj _ \<Rightarrow> Inl TypeError
             | _ \<Rightarrow> Inr (Some sid))
       else Inr None))"

fun collect_ids :: "json list \<Rightarrow> py_error + json list" where
  "collect_ids [] = Inr []"
| "collect_ids (series # rest) =
     bind_err (returned_id series) (\<lambda>r.
     bind_err (collect_ids rest) (\<lambda>ids.
       Inr (case r of None \<Rightarrow> ids | Some sid \<Rightarrow> sid # ids)))"

definition returned_ids :: "json \<Rightarrow> py_error + json list" where
  "returned_ids response =
     bind_err (results_series response) (\<lambda>series_list.
     bind_err (py_iter series_list) collect_ids)"

text \<open>
  One turn of the batch loop on \<open>(master, series_gaps)\<close>. The count
  \<^verbatim>\<open>series_with_data\<close>, which is only logged, is left out.
\<close>

definition process_batch ::
  "int \<Rightarrow> (string \<rightharpoonup> descriptor) \<Rightarrow> descriptor list \<Rightarrow> http_outcome \<Rightarrow>
   aggregation \<times> string list \<Rightarrow> py_error + aggregation \<times> string list" where
  "process_batch SURVEY_YEAR series_meta batch outcome st =
     (case st of (master, series_gaps) \<Rightarrow>
        (let batch_ids = map series_id batch
         in bind_err (fetch_bls_batch outcome) (\<lambda>response.
              case response of
                None \<Rightarrow> Inr (master, series_gaps @ batch_ids)
              | Some resp \<Rightarrow>
                  bind_err (parse_response SURVEY_YEAR resp series_meta) (\<lambda>partial.
                  bind_err (returned_ids resp) (\<lambda>ids.
                    Inr (dict_update master partial,
                         series_gaps @ filter (\<lambda>sid. JStr sid \<notin> set ids) batch_ids))))))"

text \<open>
  The batch loop from batch number \<open>i\<close> on; \<open>http j\<close> is what the request of batch
  \<open>j\<close> does. An exception leaves the loop with the state before the failing batch.
\<close>

fun run_batches ::
  "int \<Rightarrow> (string \<rightharpoonup> descriptor) \<Rightarrow> (nat \<Rightarrow> http_outcome) \<Rightarrow> nat \<Rightarrow> descriptor list list \<Rightarrow>
   aggregation \<times> string list \<Rightarrow> py_error option \<times> aggregation \<times> string list" where
  "run_batches SURVEY_YEAR series_meta http i [] st = (None, st)"
| "run_batches SURVEY_YEAR series_meta http i (batch # rest) st =
     (case process_batch SURVEY_YEAR series_meta batch (http i) st of
        Inl e \<Rightarrow> (Some e, st)
      | Inr st' \<Rightarrow> run_batches SURVEY_YEAR series_meta http (Suc i) rest st')"

text \<open>What a run finds outside the program.\<close>

record run_env =
  connect_ok :: bool
  regkey :: string
  survey_year :: int
  catalog :: "py_error + (string \<times> string) list"
  http :: "nat \<Rightarrow> http_outcome"
  insert_fault :: "nat \<Rightarrow> db_row \<Rightarrow> py_error option"
  commit_fault :: "py_error option"
  audit_fault :: bool

record database =
  bls_wage_data :: "db_row list"
  pipeline_run_log :: "audit_row list"

text \<open>The variables of \<^verbatim>\<open>main\<close> when its \<^verbatim>\<open>try\<close> block is left.\<close>

record run_state =
  rs_total_series :: "nat option"
  rs_received :: nat
  rs_written :: nat
  rs_series_gaps :: "string list"
  rs_master :: aggregation
  rs_table :: "db_row list"
  rs_raised :: "py_error option"

definition try_block :: "run_env \<Rightarrow> db_row list \<Rightarrow> run_state" where
  "try_block env tbl =
     (let st0 = \<lparr>rs_total_series = None, rs_received = 0, rs_written = 0, rs_series_gaps = [],
                 rs_master = [], rs_table = tbl, rs_raised = None\<rparr>
      in case catalog env of
           Inl e \<Rightarrow> st0\<lparr>rs_raised := Some e\<rparr>
         | Inr soc_map \<Rightarrow>
             if soc_map = [] then st0\<lparr>rs_raised := Some EmptyCatalogError\<rparr>
             else
               (let all_series = build_all_series soc_map;
                    st1 = st0\<lparr>rs_total_series := Some (length all_series)\<rparr>;
                    batches = batches_of (BATCH_SIZE (regkey env)) all_series
                in case run_batches (survey_year env) (series_meta_of all_series) (http env) 0
                          batches ([], []) of
                     (Some e, (m, gaps)) \<Rightarrow> st1\<lparr>rs_series_gaps := gaps, rs_master := m, rs_raised := Some e\<rparr>
                   | (None, (m, gaps)) \<Rightarrow>
                       (let st2 = st1\<lparr>rs_series_gaps := gaps, rs_master := m, rs_received := length m\<rparr>
                        in if 0 < length m
                           then (case load_wage_rows (insert_fault env) (commit_fault env) tbl m of
                                   (Inl e, tbl') \<Rightarrow> st2\<lparr>rs_table := tbl', rs_raised := Some e\<rparr>
                                 | (Inr n, tbl') \<Rightarrow> st2\<lparr>rs_table := tbl', rs_written := n\<rparr>)
                           else st2)))"

record run_result =
  exit_code :: nat
  final_status :: run_status
  error_msg :: "py_error option"
  gap_report :: "string list"
  aggregated :: aggregation
  final_db :: database

text \<open>
  \<^verbatim>\<open>main\<close> once the connection is open: the \<^verbatim>\<open>try\<close> block, the status, the audit
  row of the \<^verbatim>\<open>finally\<close> block, and the exit code. \<open>error_msg\<close> is the exception whose
  text the run records.
\<close>

definition pipeline_run :: "run_env \<Rightarrow> database \<Rightarrow> run_result" where
  "pipeline_run env db =
     (let st = try_block env (bls_wage_data db);
          stat = (if rs_raised st = None then SUCCESS else FAILED);
          run_log = log_pipeline_run (audit_fault env) (pipeline_run_log db) ''BLS_OEWS'' stat
                      (case rs_total_series st of None \<Rightarrow> 0 | Some n \<Rightarrow> n)
                      (rs_received st) (rs_written st) (rs_raised st)
      in \<lparr>exit_code = (if stat \<noteq> SUCCESS then 1 else 0),
          final_status = stat,
          error_msg = rs_raised st,
          gap_report = rs_series_gaps st,
          aggregated = rs_master st,
          final_db = \<lparr>bls_wage_data = rs_table st, pipeline_run_log = run_log\<rparr>\<rparr>)"


subsection \<open>Example inputs\<close>

text \<open>A catalog of two neighbouring occupation codes.\<close>

definition cat_two :: "(string \<times> string) list" where
  "cat_two = [(''15-1252'', ''Software Developers''),
              (''15-1253'', ''Software Quality Assurance Analysts and Testers'')]"

text \<open>A descriptor of the catalog, and an aggregation of one row built from it.\<close>

definition d_mean :: descriptor where
  "d_mean = mk_descriptor ((''Austin TX'', ''12420''), (''15-1252'', ''Software Developers''),
     (''03'', ''annual_mean''))"


subsection \<open>Reading a response and the aggregation\<close>

text \<open>The series that \<^verbatim>\<open>parse_response\<close> iterates over.\<close>

definition response_series :: "json \<Rightarrow> json list" where
  "response_series response_data =
     (case results_series response_data of Inr (JArr xs) \<Rightarrow> xs | _ \<Rightarrow> [])"

text \<open>The key under which the loop body merges a series, if it merges it.\<close>

definition series_key :: "int \<Rightarrow> (string \<rightharpoonup> descriptor) \<Rightarrow> json \<Rightarrow> agg_key option" where
  "series_key SURVEY_YEAR series_meta series =
     (case series_value SURVEY_YEAR series_meta series of
        Inr (Some (m, year, wage)) \<Rightarrow> Some (soc_code m, msa_code m, year)
      | _ \<Rightarrow> None)"

definition response_keys :: "int \<Rightarrow> (string \<rightharpoonup> descriptor) \<Rightarrow> json \<Rightarrow> agg_key list" where
  "response_keys SURVEY_YEAR series_meta response_data =
     List.map_filter (series_key SURVEY_YEAR series_meta) (response_series response_data)"

text \<open>A record that carries its key and has a statistic column.\<close>

definition row_ok :: "agg_key \<times> wage_row \<Rightarrow> bool" where
  "row_ok kr =
     (case kr of (key, row) \<Rightarrow>
        key = (row_soc_code row, row_msa_code row, row_survey_year row)
        \<and> wages row \<noteq> Map.empty)"

definition batch_keys ::
  "int \<Rightarrow> (string \<rightharpoonup> descriptor) \<Rightarrow> http_outcome \<Rightarrow> agg_key list" where
  "batch_keys SURVEY_YEAR series_meta outcome =
     (case fetch_bls_batch outcome of
        Inr (Some resp) \<Rightarrow> response_keys SURVEY_YEAR series_meta resp
      | _ \<Rightarrow> [])"

text \<open>
  A second descriptor of the same key, two responses that each answer one of the two
  series, and the row that the two-batch run ends with.
\<close>

definition d_p10 :: descriptor where
  "d_p10 = mk_descriptor ((''Austin TX'', ''12420''), (''15-1252'', ''Software Developers''),
     (''11'', ''pct_10''))"

definition series_json :: "string \<Rightarrow> string \<Rightarrow> string \<Rightarrow> json" where
  "series_json sid year v =
     JObj [(''seriesID'', JStr sid),
           (''data'', JArr [JObj [(''year'', JStr year), (''value'', JStr v)]])]"

definition response_json :: "json list \<Rightarrow> json" where
  "response_json xs =
     JObj [(''status'', JStr ''REQUEST_SUCCEEDED''), (''Results'', JObj [(''series'', JArr xs)])]"

definition http_split :: "nat \<Rightarrow> http_outcome" where
  "http_split j =
     (if j = 0 then Body (response_json [series_json (series_id d_mean) ''2024'' ''125000''])
      else Body (response_json [series_json (series_id d_p10) ''2024'' ''98000'']))"

definition row_split :: wage_row where
  "row_split =
     \<lparr>row_soc_code = ''15-1252'', row_soc_title = ''Software Developers'',
      row_msa_code = ''12420'', row_msa_name = ''Austin TX'', row_survey_year = 2024,
      wages = [''pct_10'' \<mapsto> Finite 98000]\<rparr>"

definition http_joint :: "nat \<Rightarrow> http_outcome" where
  "http_joint j =
     Body (response_json [series_json (series_id d_mean) ''2024'' ''125000'',
                          series_json (series_id d_p10) ''2024'' ''98000''])"

definition row_joint :: wage_row where
  "row_joint =
     \<lparr>row_soc_code = ''15-1252'', row_soc_title = ''Software Developers'',
      row_msa_code = ''12420'', row_msa_name = ''Austin TX'', row_survey_year = 2024,
      wages = [''annual_mean'' \<mapsto> Finite 125000, ''pct_10'' \<mapsto> Finite 98000]\<rparr>"

text \<open>The year that the loop body reads for a series: that of its first data point.\<close>

definition series_year :: "int \<Rightarrow> json \<Rightarrow> py_error + int" where
  "series_year SURVEY_YEAR series =
     bind_err (py_get series ''data'' (JArr [])) (\<lambda>data_points.
     bind_err (py_first data_points) (point_year SURVEY_YEAR))"

text \<open>
  A response whose data point reports the year 2023, and the row that a run
  configured for 2024 makes of it.
\<close>

definition response_2023 :: json where
  "response_2023 = response_json [series_json (series_id d_mean) ''2023'' ''125000'']"

definition row_2023 :: wage_row where
  "row_2023 =
     \<lparr>row_soc_code = ''15-1252'', row_soc_title = ''Software Developers'',
      row_msa_code = ''12420'', row_msa_name = ''Austin TX'', row_survey_year = 2023,
      wages = [''annual_mean'' \<mapsto> Finite 125000]\<rparr>"

text \<open>A batch whose turn of the loop raises nothing.\<close>

definition batch_ok :: "int \<Rightarrow> (string \<rightharpoonup> descriptor) \<Rightarrow> http_outcome \<Rightarrow> bool" where
  "batch_ok SURVEY_YEAR series_meta outcome =
     (case fetch_bls_batch outcome of
        Inl e \<Rightarrow> False
      | Inr None \<Rightarrow> True
      | Inr (Some resp) \<Rightarrow>
          (case parse_response SURVEY_YEAR resp series_meta of
             Inl e \<Rightarrow> False
           | Inr p \<Rightarrow> (case returned_ids resp of Inl e \<Rightarrow> False | Inr ids \<Rightarrow> True)))"


definition db_empty :: database where
  "db_empty = \<lparr>bls_wage_data = [], pipeline_run_log = []\<rparr>"

text \<open>
  Two runs on the catalog of two codes in which the first batch answers one series and
  every insert raises: in the first the audit row can be written, in the second the
  database accepts no write at all, so the audit write raises as well.
\<close>

definition http_one :: "nat \<Rightarrow> http_outcome" where
  "http_one j =
     (if j = 0 then Body (response_json [series_json (series_id d_mean) ''2024'' ''125000''])
      else Body (response_json []))"

definition env_rejected :: run_env where
  "env_rejected =
     \<lparr>connect_ok = True, regkey = [], survey_year = 2024, catalog = Inr cat_two,
      http = http_one,
      insert_fault = (\<lambda>i r. Some (DatabaseError ''constraint violation'')),
      commit_fault = None, audit_fault = False\<rparr>"

definition env_read_only :: run_env where
  "env_read_only =
     \<lparr>connect_ok = True, regkey = [], survey_year = 2024, catalog = Inr cat_two,
      http = http_one,
      insert_fault = (\<lambda>i r. Some (DatabaseError ''cannot execute INSERT in a read-only transaction'')),
      commit_fault = None, audit_fault = True\<rparr>"

subsection \<open>The shape of a response\<close>






















section \<open>Properties\<close>

subsection \<open>Series identifiers\<close>

lemma is_digit_not_dash: "is_digit c \<Longrightarrow> c \<noteq> CHR ''-''"
  by (auto simp: is_digit_def)

lemma is_digit_not_sign: "is_digit c \<Longrightarrow> c \<noteq> CHR ''+'' \<and> c \<noteq> CHR ''-''"
  by (auto simp: is_digit_def)

lemma soc_formE:
  assumes "soc_form s"
  obtains a b d e f g where "s = [a, b, CHR ''-'', d, e, f, g]"
    and "is_digit a" "is_digit b" "is_digit d" "is_digit e" "is_digit f" "is_digit g"
proof -
  from assms obtain a b c d e f g where s: "s = [a, b, c, d, e, f, g]"
    by (auto simp: soc_form_def split: list.splits)
  with assms have "c = CHR ''-''" "is_digit a" "is_digit b" "is_digit d" "is_digit e"
    "is_digit f" "is_digit g"
    by (simp_all add: soc_form_def)
  with s that show thesis by blast
qed

lemma soc_to_digits_form:
  assumes "soc_form s"
  shows "soc_to_digits s = remove_dashes s" and "length (soc_to_digits s) = 6"
proof -
  from assms obtain a b d e f g where s: "s = [a, b, CHR ''-'', d, e, f, g]"
    and d: "is_digit a" "is_digit b" "is_digit d" "is_digit e" "is_digit f" "is_digit g"
    by (rule soc_formE)
  from d have r: "remove_dashes s = [a, b, d, e, f, g]"
    by (simp add: s remove_dashes_def is_digit_not_dash)
  show "soc_to_digits s = remove_dashes s"
    by (simp add: soc_to_digits_def r zfill_def)
  then show "length (soc_to_digits s) = 6"
    by (simp add: r)
qed

lemma zfill_digits:
  assumes "all_digits s" "length s \<le> w"
  shows "zfill w s = replicate (w - length s) CHR ''0'' @ s"
proof (cases s)
  case Nil
  then show ?thesis by (simp add: zfill_def)
next
  case (Cons c r)
  with assms(1) have "is_digit c" by (simp add: all_digits_def)
  then have "c \<noteq> CHR ''+'' \<and> c \<noteq> CHR ''-''" by (rule is_digit_not_sign)
  with Cons assms(2) show ?thesis by (simp add: zfill_def)
qed

text \<open>
  C3. For an area code of at most seven digits, an occupation code of the form XX-XXXX
  and a two-character statistic type code, \<open>build_series_id\<close> is the prefix \<open>OEUM\<close>,
  the area code padded with zeros to seven digits, the industry code \<open>000000\<close>, the
  six digits of the occupation code without its dash, and the type code; the
  identifier is 25 characters long.
\<close>

theorem build_series_id_format:
  assumes "all_digits area" and "length area \<le> 7" and "soc_form soc" and "length dt = 2"
  shows "build_series_id area soc dt =
           ''OEUM'' @ (replicate (7 - length area) CHR ''0'' @ area) @ ''000000'' @
           remove_dashes soc @ dt
         \<and> length (replicate (7 - length area) CHR ''0'' @ area) = 7
         \<and> length (remove_dashes soc) = 6
         \<and> zfill 6 (remove_dashes soc) = remove_dashes soc
         \<and> length (build_series_id area soc dt) = 25"
proof -
  have a: "msa_to_area_code area = replicate (7 - length area) CHR ''0'' @ area"
    unfolding msa_to_area_code_def using assms(1,2) by (rule zfill_digits)
  have s: "soc_to_digits soc = remove_dashes soc" "length (soc_to_digits soc) = 6"
    using assms(3) by (rule soc_to_digits_form)+
  from a s assms(2,4) show ?thesis
    by (simp add: build_series_id_def INDUSTRY_CODE_def soc_to_digits_def)
qed

theorem build_series_id_format_example:
  "build_series_id ''19740'' ''15-1252'' ''03'' =
     ''OEUM'' @ ''0019740'' @ ''000000'' @ ''151252'' @ ''03''
   \<and> length (build_series_id ''19740'' ''15-1252'' ''03'') = 25"
  using build_series_id_format [of "''19740''" "''15-1252''" "''03''"]
  by (simp add: all_digits_def is_digit_def soc_form_def remove_dashes_def numeral_2_eq_2)

lemma build_all_series_product:
  "build_all_series cat = map mk_descriptor (List.product MSA_CODES (List.product cat DATA_TYPES))"
  by (simp add: build_all_series_def product_concat_map map_concat comp_def)

lemma length_build_all_series: "length (build_all_series cat) = 30 * length cat"
  by (simp add: build_all_series_product) (simp add: MSA_CODES_def DATA_TYPES_def)

lemma remove_dashes_inj:
  assumes "soc_form s" "soc_form t" "remove_dashes s = remove_dashes t"
  shows "s = t"
proof -
  from assms(1) obtain a b d e f g where s: "s = [a, b, CHR ''-'', d, e, f, g]"
    and ds: "is_digit a" "is_digit b" "is_digit d" "is_digit e" "is_digit f" "is_digit g"
    by (rule soc_formE)
  from assms(2) obtain a' b' d' e' f' g' where t: "t = [a', b', CHR ''-'', d', e', f', g']"
    and dt: "is_digit a'" "is_digit b'" "is_digit d'" "is_digit e'" "is_digit f'" "is_digit g'"
    by (rule soc_formE)
  from ds have rs: "remove_dashes s = [a, b, d, e, f, g]"
    by (simp add: s remove_dashes_def is_digit_not_dash)
  from dt have rt: "remove_dashes t = [a', b', d', e', f', g']"
    by (simp add: t remove_dashes_def is_digit_not_dash)
  from assms(3) rs rt show ?thesis by (simp add: s t)
qed

lemma msa_area_code:
  assumes "(n, c) \<in> set MSA_CODES"
  shows "msa_to_area_code c = ''00'' @ c \<and> length c = 5"
  using assms by (auto simp: MSA_CODES_def msa_to_area_code_def zfill_def numeral_2_eq_2)

lemma msa_name_of_code:
  assumes "(n, c) \<in> set MSA_CODES" "(n', c) \<in> set MSA_CODES"
  shows "n = n'"
  using assms by (auto simp: MSA_CODES_def)

lemma data_type_col_of_code:
  assumes "(d, c) \<in> set DATA_TYPES" "(d, c') \<in> set DATA_TYPES"
  shows "c = c'"
  using assms by (auto simp: DATA_TYPES_def)

lemma build_series_id_inj:
  assumes m: "(mn, mc) \<in> set MSA_CODES" "(mn', mc') \<in> set MSA_CODES"
    and s: "soc_form sc" "soc_form sc'"
    and eq: "build_series_id mc sc dt = build_series_id mc' sc' dt'"
  shows "mc = mc' \<and> sc = sc' \<and> dt = dt'"
proof -
  have a: "msa_to_area_code mc = ''00'' @ mc" "length mc = 5"
    using msa_area_code [OF m(1)] by simp_all
  have a': "msa_to_area_code mc' = ''00'' @ mc'" "length mc' = 5"
    using msa_area_code [OF m(2)] by simp_all
  have d: "soc_to_digits sc = remove_dashes sc" "length (soc_to_digits sc) = 6"
    using s(1) by (rule soc_to_digits_form)+
  have d': "soc_to_digits sc' = remove_dashes sc'" "length (soc_to_digits sc') = 6"
    using s(2) by (rule soc_to_digits_form)+
  from eq have "mc @ INDUSTRY_CODE @ soc_to_digits sc @ dt =
      mc' @ INDUSTRY_CODE @ soc_to_digits sc' @ dt'"
    by (simp add: build_series_id_def a a')
  with a(2) a'(2) have 1: "mc = mc'" and "soc_to_digits sc @ dt = soc_to_digits sc' @ dt'"
    by simp_all
  with d(2) d'(2) have 2: "soc_to_digits sc = soc_to_digits sc'" and 3: "dt = dt'"
    by simp_all
  from 2 d(1) d'(1) s have "sc = sc'" by (simp add: remove_dashes_inj)
  with 1 3 show ?thesis by simp
qed

lemma alist_value_unique:
  assumes "distinct (map fst xs)" "(k, v) \<in> set xs" "(k, v') \<in> set xs"
  shows "v = v'"
  using assms by (metis map_of_is_SomeI option.inject)

lemma distinct_series_ids:
  assumes dk: "distinct (map fst cat)" and sf: "list_all soc_form (map fst cat)"
  shows "distinct (map series_id (build_all_series cat))"
proof -
  let ?P = "List.product MSA_CODES (List.product cat DATA_TYPES)"
  have dc: "distinct cat" using dk by (rule distinct_map [THEN iffD1, THEN conjunct1])
  have "distinct ?P"
    by (intro distinct_product dc) (simp_all add: MSA_CODES_def DATA_TYPES_def)
  moreover have "inj_on (series_id \<circ> mk_descriptor) (set ?P)"
  proof (rule inj_onI)
    fix p q assume p: "p \<in> set ?P" and q: "q \<in> set ?P"
      and e: "(series_id \<circ> mk_descriptor) p = (series_id \<circ> mk_descriptor) q"
    obtain mn mc sc st dt cn where pp: "p = ((mn, mc), (sc, st), (dt, cn))"
      by (metis surj_pair)
    obtain mn' mc' sc' st' dt' cn' where qq: "q = ((mn', mc'), (sc', st'), (dt', cn'))"
      by (metis surj_pair)
    from p pp have pm: "(mn, mc) \<in> set MSA_CODES" "(sc, st) \<in> set cat"
      "(dt, cn) \<in> set DATA_TYPES"
      by simp_all
    from q qq have qm: "(mn', mc') \<in> set MSA_CODES" "(sc', st') \<in> set cat"
      "(dt', cn') \<in> set DATA_TYPES"
      by simp_all
    from pm(2) qm(2) sf have f: "soc_form sc" "soc_form sc'"
      by (force simp: list_all_iff)+
    from e have "build_series_id mc sc dt = build_series_id mc' sc' dt'"
      by (simp add: pp qq mk_descriptor_def)
    with pm(1) qm(1) f have k: "mc = mc'" "sc = sc'" "dt = dt'"
      using build_series_id_inj by blast+
    from k(1) pm(1) qm(1) have "mn = mn'" by (simp add: msa_name_of_code)
    moreover from k(2) pm(2) qm(2) dk have "st = st'" using alist_value_unique by fastforce
    moreover from k(3) pm(3) qm(3) have "cn = cn'" using data_type_col_of_code by fastforce
    ultimately show "p = q" using k by (simp add: pp qq)
  qed
  ultimately show ?thesis
    by (simp add: build_all_series_product distinct_map)
qed

text \<open>
  C2. For every catalog, \<open>build_all_series\<close> is the descriptor of every triple of
  \<open>MSA_CODES\<close> (5 entries), the catalog and \<open>DATA_TYPES\<close> (6 entries) in loop order,
  so a function of the catalog alone, and it has 30 descriptors per catalog entry. For
  a catalog of occupation codes (distinct keys of the form XX-XXXX), no two descriptors
  carry the same identifier.
\<close>

theorem build_all_series_count_distinct:
  "build_all_series soc_map =
     map mk_descriptor (List.product MSA_CODES (List.product soc_map DATA_TYPES))
   \<and> length MSA_CODES = 5 \<and> length DATA_TYPES = 6
   \<and> length (build_all_series soc_map) = 30 * length soc_map
   \<and> (distinct (map fst soc_map) \<and> list_all soc_form (map fst soc_map) \<longrightarrow>
        distinct (map series_id (build_all_series soc_map)))"
proof -
  have "length MSA_CODES = 5" "length DATA_TYPES = 6"
    by (simp_all add: MSA_CODES_def DATA_TYPES_def)
  with build_all_series_product [of soc_map] length_build_all_series [of soc_map]
    distinct_series_ids [of soc_map]
  show ?thesis by blast
qed

theorem build_all_series_count_distinct_witness:
  "cat_two \<noteq> [] \<and> length (build_all_series cat_two) = 60
   \<and> distinct (map series_id (build_all_series cat_two))"
proof -
  have d: "distinct (map fst cat_two)" by (simp add: cat_two_def)
  have f: "list_all soc_form (map fst cat_two)"
    by (simp add: cat_two_def soc_form_def is_digit_def)
  have n: "cat_two \<noteq> []" "length cat_two = 2" by (simp_all add: cat_two_def)
  from build_all_series_count_distinct [of cat_two] d f
  have "length (build_all_series cat_two) = 30 * length cat_two"
    and "distinct (map series_id (build_all_series cat_two))"
    by blast+
  with n show ?thesis by simp
qed

subsection \<open>Suppression-aware parsing\<close>

lemma py_float_cases: "py_float s = Inl ValueError \<or> (\<exists>f. py_float s = Inr f)"
  by (simp add: py_float_def Let_def split: prod.splits option.splits)

lemma safe_wage_str_total: "\<exists>r. safe_wage (JStr s) = Inr r"
  using py_float_cases [of "strip s"] by (auto simp: safe_wage_def Let_def)

lemma strip_simps:
  "strip ''-'' = ''-''" "strip ''**'' = ''**''" "strip ''N/A'' = ''N/A''" "strip ''NA'' = ''NA''"
  "strip [] = []" "strip ''125000'' = ''125000''" "strip ''12x'' = ''12x''"
  by (simp_all add: strip_def is_space_def)

text \<open>
  C4. \<open>safe_wage\<close> maps the strings \<open>-\<close>, \<open>**\<close>, \<open>N/A\<close>, \<open>NA\<close> and the empty
  string to \<open>None\<close>, \<open>125000\<close> to the number 125000 and \<open>12x\<close> to \<open>None\<close>; on
  every string it returns (a number or \<open>None\<close>) and raises nothing.
\<close>

theorem safe_wage_suppression:
  "safe_wage (JStr ''-'') = Inr None \<and>
   safe_wage (JStr ''**'') = Inr None \<and>
   safe_wage (JStr ''N/A'') = Inr None \<and>
   safe_wage (JStr ''NA'') = Inr None \<and>
   safe_wage (JStr []) = Inr None \<and>
   safe_wage (JStr ''125000'') = Inr (Some (Finite 125000)) \<and>
   safe_wage (JStr ''12x'') = Inr None \<and>
   (\<forall>s. \<exists>r. safe_wage (JStr s) = Inr r)"
proof -
  have "py_float ''125000'' = Inr (Finite 125000)"
    by (simp add: py_float_def take_sign_def num_strip_def is_num_space_def floatnumber_def
        is_digit_def ascii_lower_def digits_val_def digit_val_def)
  moreover have "py_float ''12x'' = Inl ValueError"
    by (simp add: py_float_def take_sign_def num_strip_def is_num_space_def floatnumber_def
        is_digit_def ascii_lower_def digits_val_def digit_val_def parse_exponent_def)
  ultimately show ?thesis
    using safe_wage_str_total by (simp add: safe_wage_def strip_simps)
qed

subsection \<open>The loader\<close>

lemma upsert_cases:
  "upsert r tbl = (tbl, 0) \<and> unique_key r \<in> unique_key ` set tbl
   \<or> upsert r tbl = (tbl @ [r], 1) \<and> unique_key r \<notin> unique_key ` set tbl"
  by (simp add: upsert_def)







subsection \<open>The aggregation\<close>

lemma bind_err_Inr: "bind_err x f = Inr y \<longleftrightarrow> (\<exists>v. x = Inr v \<and> f v = Inr y)"
  by (cases x) (simp_all add: bind_err_def)

lemma bind_err_Inl: "bind_err x f = Inl e \<longleftrightarrow> x = Inl e \<or> (\<exists>v. x = Inr v \<and> f v = Inl e)"
  by (cases x) (simp_all add: bind_err_def)

lemma set_update_subset: "set (AList.update k v al) \<subseteq> insert (k, v) (set al)"
  by (induction al) auto

lemma update_mem: "(k, v) \<in> set (AList.update k v al)"
  by (induction al) auto

lemma add_wage_keys:
  "fst ` set (add_wage d y w p) = insert (soc_code d, msa_code d, y) (fst ` set p)"
  by (simp add: add_wage_def Let_def dom_update)

lemma add_wage_distinct:
  "distinct (map fst p) \<Longrightarrow> distinct (map fst (add_wage d y w p))"
  by (simp add: add_wage_def Let_def distinct_update)

lemma add_wage_rows_ok:
  assumes "list_all row_ok p" and "distinct (map fst p)"
  shows "list_all row_ok (add_wage d y w p)"
proof -
  let ?k = "(soc_code d, msa_code d, y)"
  let ?row = "case map_of p ?k of None \<Rightarrow> new_row d y | Some r \<Rightarrow> r"
  let ?row' = "?row\<lparr>wages := (wages ?row)(col_name d \<mapsto> w)\<rparr>"
  have "row_ok (?k, ?row')"
  proof (cases "map_of p ?k")
    case None
    then show ?thesis by (simp add: row_ok_def new_row_def)
  next
    case (Some r)
    then have "(?k, r) \<in> set p" by (rule map_of_SomeD)
    with assms(1) have "row_ok (?k, r)" by (auto simp: list_all_iff)
    with Some show ?thesis by (simp add: row_ok_def)
  qed
  moreover have "set (add_wage d y w p) \<subseteq> insert (?k, ?row') (set p)"
    by (simp add: add_wage_def Let_def set_update_subset)
  ultimately show ?thesis using assms(1) by (auto simp: list_all_iff)
qed

lemma parse_series_cases:
  assumes "parse_series sy meta series p = Inr p'"
  shows "series_key sy meta series = None \<and> p' = p
       \<or> (\<exists>d y w. series_value sy meta series = Inr (Some (d, y, w))
            \<and> series_key sy meta series = Some (soc_code d, msa_code d, y)
            \<and> p' = add_wage d y w p)"
proof (cases "series_value sy meta series")
  case (Inl e)
  with assms show ?thesis by (simp add: parse_series_def bind_err_def)
next
  case (Inr c)
  show ?thesis
  proof (cases c)
    case None
    with Inr assms show ?thesis by (simp add: parse_series_def bind_err_def series_key_def)
  next
    case (Some t)
    obtain d y w where t: "t = (d, y, w)" by (cases t)
    from Some t Inr assms show ?thesis
      by (simp add: parse_series_def bind_err_def series_key_def)
  qed
qed

lemma parse_series_keys:
  assumes "parse_series sy meta series p = Inr q"
  shows "fst ` set q = fst ` set p \<union> set (List.map_filter (series_key sy meta) [series])"
  using parse_series_cases [OF assms]
proof (elim disjE exE conjE)
  assume "series_key sy meta series = None" "q = p"
  then show ?thesis by (simp add: map_filter_simps)
next
  fix d y w
  assume "series_key sy meta series = Some (soc_code d, msa_code d, y)" "q = add_wage d y w p"
  then show ?thesis by (simp add: map_filter_simps add_wage_keys)
qed

lemma map_filter_Cons_set:
  "set (List.map_filter f (x # xs)) = set (List.map_filter f [x]) \<union> set (List.map_filter f xs)"
  by (simp add: map_filter_simps split: option.splits)

lemma parse_series_list_keys:
  assumes "parse_series_list sy meta xs p = Inr p'"
  shows "fst ` set p' = fst ` set p \<union> set (List.map_filter (series_key sy meta) xs)"
  using assms
proof (induction xs arbitrary: p)
  case Nil
  then show ?case by (simp add: map_filter_simps)
next
  case (Cons series rest)
  from Cons.prems obtain q where q: "parse_series sy meta series p = Inr q"
    and r: "parse_series_list sy meta rest q = Inr p'"
    by (auto simp: bind_err_Inr)
  show ?case
    by (simp only: Cons.IH [OF r] parse_series_keys [OF q]
        map_filter_Cons_set [of _ series rest] Un_assoc)
qed

lemma parse_series_inv:
  assumes "parse_series sy meta series p = Inr q"
    and "list_all row_ok p" and "distinct (map fst p)"
  shows "list_all row_ok q \<and> distinct (map fst q)"
  using parse_series_cases [OF assms(1)]
proof (elim disjE exE conjE)
  assume "q = p"
  with assms(2,3) show ?thesis by simp
next
  fix d y w
  assume "q = add_wage d y w p"
  with assms(2,3) show ?thesis by (simp add: add_wage_rows_ok add_wage_distinct)
qed

lemma parse_series_list_inv:
  assumes "parse_series_list sy meta xs p = Inr p'"
    and "list_all row_ok p" and "distinct (map fst p)"
  shows "list_all row_ok p' \<and> distinct (map fst p')"
  using assms
proof (induction xs arbitrary: p)
  case Nil
  then show ?case by simp
next
  case (Cons series rest)
  from Cons.prems(1) obtain q where q: "parse_series sy meta series p = Inr q"
    and r: "parse_series_list sy meta rest q = Inr p'"
    by (auto simp: bind_err_Inr)
  from parse_series_inv [OF q Cons.prems(2,3)]
  have "list_all row_ok q" "distinct (map fst q)" by simp_all
  then show ?case by (rule Cons.IH [OF r])
qed

lemma parse_response_cases:
  assumes "parse_response sy resp meta = Inr p"
  shows "parse_series_list sy meta (response_series resp) [] = Inr p"
proof -
  from assms obtain v where v: "results_series resp = Inr v"
    and c: "(case v of JArr xs \<Rightarrow> parse_series_list sy meta xs [] | _ \<Rightarrow> Inr []) = Inr p"
    by (auto simp: parse_response_def bind_err_Inr)
  show ?thesis
  proof (cases v)
    case (JArr xs)
    with v c show ?thesis by (simp add: response_series_def)
  qed (use v c in \<open>simp_all add: response_series_def\<close>)
qed

lemma parse_response_keys:
  assumes "parse_response sy resp meta = Inr p"
  shows "fst ` set p = set (response_keys sy meta resp)"
  using parse_series_list_keys [OF parse_response_cases [OF assms]]
  by (simp add: response_keys_def)

lemma parse_response_inv:
  assumes "parse_response sy resp meta = Inr p"
  shows "list_all row_ok p \<and> distinct (map fst p)"
  using parse_series_list_inv [OF parse_response_cases [OF assms]] by simp

lemma foldl_update_keys:
  "fst ` set (foldl (\<lambda>d kv. AList.update (fst kv) (snd kv) d) m p) = fst ` set m \<union> fst ` set p"
proof (induction p arbitrary: m)
  case Nil
  then show ?case by simp
next
  case (Cons kv p)
  show ?case by (simp add: Cons.IH dom_update)
qed

lemma dict_update_keys: "fst ` set (dict_update m p) = fst ` set m \<union> fst ` set p"
  using foldl_update_keys [of m p] by (simp add: dict_update_def)

lemma foldl_update_subset:
  "set (foldl (\<lambda>d kv. AList.update (fst kv) (snd kv) d) m p) \<subseteq> set m \<union> set p"
proof (induction p arbitrary: m)
  case Nil
  then show ?case by simp
next
  case (Cons kv p)
  have "set (AList.update (fst kv) (snd kv) m) \<subseteq> insert kv (set m)"
    using set_update_subset [of "fst kv" "snd kv" m] by simp
  with Cons [of "AList.update (fst kv) (snd kv) m"] show ?case
    by (simp del: Un_insert_right) blast
qed

lemma dict_update_subset: "set (dict_update m p) \<subseteq> set m \<union> set p"
  using foldl_update_subset [of m p] by (simp add: dict_update_def)

lemma foldl_update_distinct:
  "distinct (map fst m) \<Longrightarrow>
   distinct (map fst (foldl (\<lambda>d kv. AList.update (fst kv) (snd kv) d) m p))"
  by (induction p arbitrary: m) (simp_all add: distinct_update)

lemma dict_update_distinct:
  "distinct (map fst m) \<Longrightarrow> distinct (map fst (dict_update m p))"
  using foldl_update_distinct [of m p] by (simp add: dict_update_def)

lemma process_batch_cases:
  assumes "process_batch sy meta batch outcome (m, g) = Inr (m', g')"
  shows "fetch_bls_batch outcome = Inr None \<and> m' = m \<and> g' = g @ map series_id batch
       \<or> (\<exists>resp p ids. fetch_bls_batch outcome = Inr (Some resp)
            \<and> parse_response sy resp meta = Inr p
            \<and> returned_ids resp = Inr ids
            \<and> m' = dict_update m p
            \<and> g' = g @ filter (\<lambda>sid. JStr sid \<notin> set ids) (map series_id batch))"
proof -
  from assms obtain response where f: "fetch_bls_batch outcome = Inr response"
    and c: "(case response of
               None \<Rightarrow> Inr (m, g @ map series_id batch)
             | Some resp \<Rightarrow>
                 bind_err (parse_response sy resp meta) (\<lambda>partial.
                 bind_err (returned_ids resp) (\<lambda>ids.
                   Inr (dict_update m partial,
                        g @ filter (\<lambda>sid. JStr sid \<notin> set ids) (map series_id batch)))))
            = Inr (m', g')"
    by (auto simp: process_batch_def Let_def bind_err_Inr)
  show ?thesis
  proof (cases response)
    case None
    with f c show ?thesis by simp
  next
    case (Some resp)
    with c obtain p ids where "parse_response sy resp meta = Inr p"
      "returned_ids resp = Inr ids" "m' = dict_update m p"
      "g' = g @ filter (\<lambda>sid. JStr sid \<notin> set ids) (map series_id batch)"
      by (auto simp: bind_err_Inr)
    with f Some show ?thesis by blast
  qed
qed

lemma batch_keys_iff:
  "key \<in> set (batch_keys sy meta outcome) \<longleftrightarrow>
     (\<exists>resp. fetch_bls_batch outcome = Inr (Some resp) \<and> key \<in> set (response_keys sy meta resp))"
proof (cases "fetch_bls_batch outcome")
  case (Inl e)
  then show ?thesis by (simp add: batch_keys_def)
next
  case (Inr r)
  then show ?thesis by (cases r) (simp_all add: batch_keys_def)
qed

lemma process_batch_keys:
  assumes "process_batch sy meta batch outcome (m, g) = Inr (m1, g1)"
  shows "fst ` set m1 = fst ` set m \<union> set (batch_keys sy meta outcome)"
  using process_batch_cases [OF assms]
proof (elim disjE exE conjE)
  assume "fetch_bls_batch outcome = Inr None" "m1 = m"
  then show ?thesis by (simp add: batch_keys_def)
next
  fix resp p ids
  assume "fetch_bls_batch outcome = Inr (Some resp)" "parse_response sy resp meta = Inr p"
    "m1 = dict_update m p"
  then show ?thesis by (simp add: batch_keys_def dict_update_keys parse_response_keys)
qed

lemma process_batch_inv:
  assumes "process_batch sy meta batch outcome (m, g) = Inr (m1, g1)"
    and ok: "list_all row_ok m" and d: "distinct (map fst m)"
  shows "list_all row_ok m1 \<and> distinct (map fst m1)"
  using process_batch_cases [OF assms(1)]
proof (elim disjE exE conjE)
  assume "m1 = m"
  with ok d show ?thesis by simp
next
  fix resp p ids
  assume p: "parse_response sy resp meta = Inr p" and m1: "m1 = dict_update m p"
  from parse_response_inv [OF p] have "list_all row_ok p" by simp
  have "list_all row_ok m1"
    unfolding list_all_iff
  proof
    fix x assume "x \<in> set m1"
    with dict_update_subset [of m p] have "x \<in> set m \<or> x \<in> set p"
      unfolding m1 by blast
    with ok \<open>list_all row_ok p\<close> show "row_ok x"
      unfolding list_all_iff by blast
  qed
  with d show ?thesis by (simp add: m1 dict_update_distinct)
qed

lemma run_batches_step:
  assumes "run_batches sy meta h i (batch # rest) (m, g) = (None, m', g')"
  obtains m1 g1 where "process_batch sy meta batch (h i) (m, g) = Inr (m1, g1)"
    and "run_batches sy meta h (Suc i) rest (m1, g1) = (None, m', g')"
proof (cases "process_batch sy meta batch (h i) (m, g)")
  case (Inl e)
  with assms show ?thesis by simp
next
  case (Inr st)
  obtain m1 g1 where "st = (m1, g1)" by (cases st)
  with Inr assms that show ?thesis by simp
qed

lemma run_batches_keys:
  assumes "run_batches sy meta h i batches (m, g) = (None, m', g')"
  shows "fst ` set m' =
      fst ` set m \<union> (\<Union>j < length batches. set (batch_keys sy meta (h (i + j))))"
  using assms
proof (induction batches arbitrary: i m g)
  case Nil
  then show ?case by simp
next
  case (Cons batch rest)
  from Cons.prems obtain m1 g1 where
    s: "process_batch sy meta batch (h i) (m, g) = Inr (m1, g1)"
    and r: "run_batches sy meta h (Suc i) rest (m1, g1) = (None, m', g')"
    by (rule run_batches_step)
  have u: "(\<Union>j < length (batch # rest). set (batch_keys sy meta (h (i + j)))) =
      set (batch_keys sy meta (h i)) \<union>
      (\<Union>j < length rest. set (batch_keys sy meta (h (Suc i + j))))"
    by (simp add: lessThan_Suc_eq_insert_0 image_image)
  show ?case
    by (simp only: Cons.IH [OF r] process_batch_keys [OF s] u Un_assoc)
qed

lemma run_batches_inv:
  assumes "run_batches sy meta h i batches (m, g) = (None, m', g')"
    and "list_all row_ok m" and "distinct (map fst m)"
  shows "list_all row_ok m' \<and> distinct (map fst m')"
  using assms
proof (induction batches arbitrary: i m g)
  case Nil
  then show ?case by simp
next
  case (Cons batch rest)
  from Cons.prems(1) obtain m1 g1 where
    s: "process_batch sy meta batch (h i) (m, g) = Inr (m1, g1)"
    and r: "run_batches sy meta h (Suc i) rest (m1, g1) = (None, m', g')"
    by (rule run_batches_step)
  from process_batch_inv [OF s Cons.prems(2,3)]
  have "list_all row_ok m1" "distinct (map fst m1)" by simp_all
  then show ?case by (rule Cons.IH [OF r])
qed

lemma run_batches_keys_iff:
  assumes "run_batches sy meta h 0 batches ([], []) = (None, m, gaps)"
  shows "(key \<in> fst ` set m \<longleftrightarrow>
            (\<exists>j < length batches. \<exists>resp. fetch_bls_batch (h j) = Inr (Some resp)
               \<and> key \<in> set (response_keys sy meta resp)))
         \<and> list_all row_ok m \<and> distinct (map fst m)"
proof -
  from run_batches_keys [OF assms]
  have "fst ` set m = (\<Union>j < length batches. set (batch_keys sy meta (h j)))" by simp
  then have "key \<in> fst ` set m \<longleftrightarrow> (\<exists>j < length batches. key \<in> set (batch_keys sy meta (h j)))"
    by (simp only: UN_iff lessThan_iff Bex_def) 
  then have "key \<in> fst ` set m \<longleftrightarrow>
            (\<exists>j < length batches. \<exists>resp. fetch_bls_batch (h j) = Inr (Some resp)
               \<and> key \<in> set (response_keys sy meta resp))"
    by (simp only: batch_keys_iff)
  moreover have "list_all row_ok m \<and> distinct (map fst m)"
    by (rule run_batches_inv [OF assms]) simp_all
  ultimately show ?thesis by blast
qed

lemmas number_defs = py_int_def py_int_str_def take_sign_def num_strip_def is_num_space_def
  is_digit_def digits_val_def digit_val_def strip_def is_space_def py_float_def
  floatnumber_def ascii_lower_def

lemmas json_defs = py_get_def py_in_def py_keys_def py_item_def py_first_def py_iter_def
  truthy_def meta_get_def bind_err_def results_series_def

lemma example_descriptors:
  "d_mean = \<lparr>series_id = ''OEUM001242000000015125203'', msa_name = ''Austin TX'',
      msa_code = ''12420'', soc_code = ''15-1252'', soc_title = ''Software Developers'',
      data_type = ''03'', col_name = ''annual_mean''\<rparr>"
  "d_p10 = \<lparr>series_id = ''OEUM001242000000015125211'', msa_name = ''Austin TX'',
      msa_code = ''12420'', soc_code = ''15-1252'', soc_title = ''Software Developers'',
      data_type = ''11'', col_name = ''pct_10''\<rparr>"
  by (simp_all add: d_mean_def d_p10_def mk_descriptor_def build_series_id_def
      msa_to_area_code_def soc_to_digits_def zfill_def remove_dashes_def INDUSTRY_CODE_def
      numeral_2_eq_2)

lemma safe_wage_examples:
  "safe_wage (JStr ''125000'') = Inr (Some (Finite 125000))"
  "safe_wage (JStr ''98000'') = Inr (Some (Finite 98000))"
  by (simp_all add: safe_wage_def number_defs)

lemma point_year_example:
  "point_year sy (JObj [(''year'', JStr ''2024''), (''value'', v)]) = Inr 2024"
  by (simp add: point_year_def json_defs number_defs)

lemma run_split:
  "run_batches 2024 (series_meta_of [d_mean, d_p10]) http_split 0 [[d_mean], [d_p10]] ([], []) =
     (None, [((''15-1252'', ''12420'', 2024), row_split)], [])"
  by (simp add: process_batch_def fetch_bls_batch_def parse_response_def parse_series_def
      series_value_def series_meta_of_def add_wage_def new_row_def dict_update_def
      returned_ids_def returned_id_def http_split_def response_json_def series_json_def
      example_descriptors safe_wage_examples point_year_example json_defs row_split_def)

lemma series_key_Some:
  "series_key sy meta series = Some key \<longleftrightarrow>
     (\<exists>d y w. series_value sy meta series = Inr (Some (d, y, w))
        \<and> key = (soc_code d, msa_code d, y))"
proof (cases "series_value sy meta series")
  case (Inl e)
  then show ?thesis by (simp add: series_key_def)
next
  case (Inr c)
  show ?thesis
  proof (cases c)
    case None
    with Inr show ?thesis by (simp add: series_key_def)
  next
    case (Some t)
    obtain d y w where "t = (d, y, w)" by (cases t)
    with Some Inr show ?thesis by (auto simp: series_key_def)
  qed
qed

lemma set_map_filter_iff:
  "y \<in> set (List.map_filter f xs) \<longleftrightarrow> (\<exists>x \<in> set xs. f x = Some y)"
  by (induction xs) (auto simp: map_filter_simps split: option.splits)

lemma response_keys_iff:
  "key \<in> set (response_keys sy meta resp) \<longleftrightarrow>
     (\<exists>series \<in> set (response_series resp). \<exists>d y w.
        series_value sy meta series = Inr (Some (d, y, w))
        \<and> key = (soc_code d, msa_code d, y))"
proof -
  have "key \<in> set (response_keys sy meta resp) \<longleftrightarrow>
      (\<exists>series \<in> set (response_series resp). series_key sy meta series = Some key)"
    by (simp add: response_keys_def set_map_filter_iff)
  then show ?thesis by (simp only: series_key_Some)
qed

text \<open>
  C5. After a batch loop that raised nothing, a key is in the aggregation exactly when
  the response of some batch holds a series that the loop body merged: a series whose
  identifier is known and whose first data point carries a value that parses to a
  number, the key being the descriptor's occupation code and geography code with the
  year of the point. Every record carries its key in its identity fields and has at
  least one statistic column, and no key occurs twice. The loop may stop after any
  batch, so a key is there from its first contribution on.
\<close>

theorem wage_record_exists_iff:
  assumes "run_batches sy meta h 0 batches ([], []) = (None, m, gaps)"
  shows "(key \<in> fst ` set m \<longleftrightarrow>
            (\<exists>j < length batches. \<exists>resp. fetch_bls_batch (h j) = Inr (Some resp)
               \<and> (\<exists>series \<in> set (response_series resp). \<exists>d y w.
                     series_value sy meta series = Inr (Some (d, y, w))
                     \<and> key = (soc_code d, msa_code d, y))))
         \<and> list_all row_ok m \<and> distinct (map fst m)"
  using run_batches_keys_iff [OF assms, of key] by (simp only: response_keys_iff)


theorem wage_record_exists_iff_witness:
  "run_batches 2024 (series_meta_of [d_mean, d_p10]) http_split 0 [[d_mean], [d_p10]] ([], []) =
     (None, [((''15-1252'', ''12420'', 2024), row_split)], [])
   \<and> (''15-1252'', ''12420'', 2024) \<in> fst ` set [((''15-1252'', ''12420'', 2024), row_split)]
   \<and> list_all row_ok [((''15-1252'', ''12420'', 2024), row_split)]"
  using wage_record_exists_iff [OF run_split] run_split by simp

lemma run_joint:
  "run_batches 2024 (series_meta_of [d_mean, d_p10]) http_joint 0 [[d_mean, d_p10]] ([], []) =
     (None, [((''15-1252'', ''12420'', 2024), row_joint)], [])"
  by (simp add: process_batch_def fetch_bls_batch_def parse_response_def parse_series_def
      series_value_def series_meta_of_def add_wage_def new_row_def dict_update_def
      returned_ids_def returned_id_def http_joint_def response_json_def series_json_def
      example_descriptors safe_wage_examples point_year_example json_defs row_joint_def)

text \<open>
  C1. The two series of one key, answered in one batch, give a record with both
  columns; answered in two batches, they give a record that has lost the column of the
  first batch, since \<open>dict_update\<close> replaces the record of a key that is already there.
\<close>

theorem split_batches_lose_column:
  "run_batches 2024 (series_meta_of [d_mean, d_p10]) http_joint 0 [[d_mean, d_p10]] ([], []) =
     (None, [((''15-1252'', ''12420'', 2024), row_joint)], [])
   \<and> wages row_joint ''annual_mean'' = Some (Finite 125000)
   \<and> wages row_joint ''pct_10'' = Some (Finite 98000)
   \<and> run_batches 2024 (series_meta_of [d_mean, d_p10]) http_split 0 [[d_mean], [d_p10]] ([], []) =
     (None, [((''15-1252'', ''12420'', 2024), row_split)], [])
   \<and> wages row_split ''annual_mean'' = None
   \<and> wages row_split ''pct_10'' = Some (Finite 98000)"
  using run_joint run_split by (simp add: row_joint_def row_split_def)

subsection \<open>The year of a record\<close>

lemma point_year_field:
  "point_year sy (JObj kvs) = (case map_of kvs ''year'' of None \<Rightarrow> Inr sy | Some y \<Rightarrow> py_int y)"
  by (simp add: point_year_def py_get_def bind_err_def py_int_def split: option.splits)

lemma series_value_SomeD:
  assumes "series_value sy meta series = Inr (Some (d, y, w))"
  shows "\<exists>sid dp point v.
           py_get series ''seriesID'' (JStr []) = Inr sid
           \<and> meta_get meta sid = Inr (Some d)
           \<and> py_get series ''data'' (JArr []) = Inr dp \<and> truthy dp
           \<and> py_first dp = Inr point
           \<and> point_year sy point = Inr y
           \<and> py_get point ''value'' (JStr []) = Inr v
           \<and> safe_wage v = Inr (Some w)"
  using assms
  by (simp add: series_value_def bind_err_def split: sum.splits option.splits if_splits)

lemma series_value_year:
  assumes "series_value sy meta series = Inr (Some (d, y, w))"
  shows "series_year sy series = Inr y"
  using series_value_SomeD [OF assms] by (auto simp: series_year_def bind_err_def)

lemma parse_response_rows:
  assumes p: "parse_response sy resp meta = Inr partial" and m: "(key, row) \<in> set partial"
  shows "\<exists>series \<in> set (response_series resp). \<exists>d w.
           series_value sy meta series = Inr (Some (d, row_survey_year row, w))
           \<and> key = (soc_code d, msa_code d, row_survey_year row)
           \<and> series_year sy series = Inr (row_survey_year row)"
proof -
  from m have "key \<in> fst ` set partial" by force
  with parse_response_keys [OF p] have "key \<in> set (response_keys sy meta resp)" by simp
  then obtain series d y w where s: "series \<in> set (response_series resp)"
    and v: "series_value sy meta series = Inr (Some (d, y, w))"
    and k: "key = (soc_code d, msa_code d, y)"
    unfolding response_keys_iff by blast
  from parse_response_inv [OF p] m have "row_ok (key, row)" by (auto simp: list_all_iff)
  with k have y: "y = row_survey_year row" by (simp add: row_ok_def)
  from series_value_year [OF v] s v k y show ?thesis by blast
qed

text \<open>
  C9. The year of a data point is the integer read from its \<open>year\<close> field, and the
  configured survey year only when the point has no such field. Every record that
  \<open>parse_response\<close> returns is keyed by the year of the first data point of a series
  that was merged, carries that year as its survey year, and is stored under it as
  reference year; and every merged series has its key, with the year of its data point,
  in the result. The configured (and requested) year plays no part when the point
  reports a year.
\<close>

theorem parse_response_keys_by_reported_year:
  assumes "parse_response sy resp meta = Inr partial"
  shows "(\<forall>kvs. point_year sy (JObj kvs) =
            (case map_of kvs ''year'' of None \<Rightarrow> Inr sy | Some y \<Rightarrow> py_int y))
         \<and> (\<forall>(key, row) \<in> set partial.
              (\<exists>series \<in> set (response_series resp). \<exists>d w.
                 series_value sy meta series = Inr (Some (d, row_survey_year row, w))
                 \<and> key = (soc_code d, msa_code d, row_survey_year row)
                 \<and> series_year sy series = Inr (row_survey_year row))
              \<and> reference_year (insert_record row) = row_survey_year row)
         \<and> (\<forall>series \<in> set (response_series resp). \<forall>d y w.
              series_value sy meta series = Inr (Some (d, y, w)) \<longrightarrow>
                series_year sy series = Inr y
                \<and> (soc_code d, msa_code d, y) \<in> fst ` set partial)"
proof (intro conjI allI ballI impI)
  fix kvs
  show "point_year sy (JObj kvs) =
      (case map_of kvs ''year'' of None \<Rightarrow> Inr sy | Some y \<Rightarrow> py_int y)"
    by (rule point_year_field)
next
  fix kr assume kr: "kr \<in> set partial"
  obtain key row where e: "kr = (key, row)" by (cases kr)
  from parse_response_rows [OF assms, of key row] kr e
  show "case kr of (key, row) \<Rightarrow>
      (\<exists>series \<in> set (response_series resp). \<exists>d w.
         series_value sy meta series = Inr (Some (d, row_survey_year row, w))
         \<and> key = (soc_code d, msa_code d, row_survey_year row)
         \<and> series_year sy series = Inr (row_survey_year row))
      \<and> reference_year (insert_record row) = row_survey_year row"
    by (simp add: insert_record_def)
next
  fix series d y w
  assume s: "series \<in> set (response_series resp)"
    and v: "series_value sy meta series = Inr (Some (d, y, w))"
  show "series_year sy series = Inr y" using v by (rule series_value_year)
  from s v have "(soc_code d, msa_code d, y) \<in> set (response_keys sy meta resp)"
    unfolding response_keys_iff by blast
  with parse_response_keys [OF assms]
  show "(soc_code d, msa_code d, y) \<in> fst ` set partial" by simp
qed

lemma parse_response_2023:
  "parse_response 2024 response_2023 (series_meta_of [d_mean, d_p10]) =
     Inr [((''15-1252'', ''12420'', 2023), row_2023)]"
  by (simp add: parse_response_def parse_series_def series_value_def series_meta_of_def
      add_wage_def new_row_def response_2023_def response_json_def series_json_def
      example_descriptors safe_wage_examples point_year_def json_defs number_defs row_2023_def)

theorem parse_response_keys_by_reported_year_witness:
  "parse_response 2024 response_2023 (series_meta_of [d_mean, d_p10]) =
     Inr [((''15-1252'', ''12420'', 2023), row_2023)]
   \<and> reference_year (insert_record row_2023) = 2023
   \<and> (\<exists>series \<in> set (response_series response_2023).
         series_year 2024 series = Inr 2023)"
proof -
  note h = parse_response_2023
  from parse_response_keys_by_reported_year [OF h]
  have "\<forall>(key, row) \<in> set [((''15-1252'', ''12420'', 2023), row_2023)].
      (\<exists>series \<in> set (response_series response_2023). \<exists>d w.
         series_value 2024 (series_meta_of [d_mean, d_p10]) series =
           Inr (Some (d, row_survey_year row, w))
         \<and> key = (soc_code d, msa_code d, row_survey_year row)
         \<and> series_year 2024 series = Inr (row_survey_year row))
      \<and> reference_year (insert_record row) = row_survey_year row"
    by blast
  then have "(\<exists>series \<in> set (response_series response_2023).
         series_year 2024 series = Inr 2023)
      \<and> reference_year (insert_record row_2023) = 2023"
    by (auto simp: row_2023_def)
  with h show ?thesis by blast
qed

subsection \<open>A failed batch\<close>


lemma process_batch_None:
  assumes "fetch_bls_batch outcome = Inr None"
  shows "process_batch sy meta batch outcome st = Inr (fst st, snd st @ map series_id batch)"
  using assms by (cases st) (simp add: process_batch_def bind_err_def)

lemma process_batch_ok:
  assumes "batch_ok sy meta outcome"
  shows "\<exists>st'. process_batch sy meta batch outcome st = Inr st'"
proof (cases "fetch_bls_batch outcome")
  case (Inl e)
  with assms show ?thesis by (simp add: batch_ok_def)
next
  case (Inr response)
  show ?thesis
  proof (cases response)
    case None
    with Inr process_batch_None [of outcome sy meta batch st] show ?thesis by simp
  next
    case (Some resp)
    from assms Inr Some obtain p ids where "parse_response sy resp meta = Inr p"
      "returned_ids resp = Inr ids"
      by (cases "parse_response sy resp meta"; cases "returned_ids resp")
        (simp_all add: batch_ok_def)
    with Inr Some show ?thesis
      by (cases st) (simp add: process_batch_def bind_err_def)
  qed
qed

lemma run_batches_all_ok:
  assumes "\<forall>j < length batches. batch_ok sy meta (h (i + j))"
  shows "\<exists>m' g'. run_batches sy meta h i batches st = (None, m', g')"
  using assms
proof (induction batches arbitrary: i st)
  case Nil
  then show ?case by (cases st) simp
next
  case (Cons batch rest)
  from Cons.prems have "batch_ok sy meta (h i)" by force
  from process_batch_ok [OF this] obtain st' where
    s: "process_batch sy meta batch (h i) st = Inr st'" by blast
  from Cons.prems have "\<forall>j < length rest. batch_ok sy meta (h (Suc i + j))" by force
  from Cons.IH [OF this] s show ?case by simp
qed




lemma batch_keys_None: "fetch_bls_batch outcome = Inr None \<Longrightarrow> batch_keys sy meta outcome = []"
  by (simp add: batch_keys_def)






lemma batch_ok_no_series: "batch_ok sy meta (Body (response_json []))"
  by (simp add: batch_ok_def fetch_bls_batch_def parse_response_def returned_ids_def
      response_json_def json_defs)


subsection \<open>A failed load\<close>

lemma execute_all_fault:
  assumes "k < length rows" and "flt (i + k) (insert_record (rows ! k)) = Some e"
    and "\<forall>j < k. flt (i + j) (insert_record (rows ! j)) = None"
  shows "execute_all flt i rows (tbl, w) = Inl e"
  using assms
proof (induction rows arbitrary: i k tbl w)
  case Nil
  then show ?case by simp
next
  case (Cons row rest)
  show ?case
  proof (cases k)
    case 0
    with Cons.prems(2) show ?thesis by simp
  next
    case (Suc k')
    with Cons.prems have 1: "k' < length rest"
      and 2: "flt (Suc i + k') (insert_record (rest ! k')) = Some e"
      by simp_all
    from Cons.prems(3) Suc have 0: "flt i (insert_record row) = None" by force
    have 3: "\<forall>j < k'. flt (Suc i + j) (insert_record (rest ! j)) = None"
    proof (intro allI impI)
      fix j assume "j < k'"
      with Suc have "Suc j < k" by simp
      with Cons.prems(3) have "flt (i + Suc j) (insert_record ((row # rest) ! Suc j)) = None"
        by blast
      then show "flt (Suc i + j) (insert_record (rest ! j)) = None" by simp
    qed
    obtain tbl' n where u: "upsert (insert_record row) tbl = (tbl', n)"
      by (cases "upsert (insert_record row) tbl")
    from Cons.IH [OF 1 2 3] 0 u show ?thesis by simp
  qed
qed

lemma load_wage_rows_rollback:
  assumes "k < length agg" and "flt k (insert_record (snd (agg ! k))) = Some e"
    and "\<forall>j < k. flt j (insert_record (snd (agg ! j))) = None"
  shows "load_wage_rows flt cflt tbl agg = (Inl e, tbl)"
proof -
  from assms have "execute_all flt 0 (map snd agg) (tbl, 0) = Inl e"
    by (intro execute_all_fault [of k]) simp_all
  then show ?thesis by (simp add: load_wage_rows_def)
qed

lemma run_with_failed_load:
  assumes c: "catalog env = Inr soc_map" "soc_map \<noteq> []"
    and run: "run_batches (survey_year env) (series_meta_of (build_all_series soc_map)) (http env) 0
        (batches_of (BATCH_SIZE (regkey env)) (build_all_series soc_map)) ([], []) = (None, m, g)"
    and k: "k < length m" "insert_fault env k (insert_record (snd (m ! k))) = Some e"
      "\<forall>j < k. insert_fault env j (insert_record (snd (m ! j))) = None"
  shows "load_wage_rows (insert_fault env) (commit_fault env) (bls_wage_data db) m =
           (Inl e, bls_wage_data db)
         \<and> bls_wage_data (final_db (pipeline_run env db)) = bls_wage_data db
         \<and> final_status (pipeline_run env db) = FAILED
         \<and> error_msg (pipeline_run env db) = Some e
         \<and> exit_code (pipeline_run env db) = 1
         \<and> pipeline_run_log (final_db (pipeline_run env db)) =
             (if audit_fault env then pipeline_run_log db
              else pipeline_run_log db @
                [\<lparr>pipeline_type = ''BLS_OEWS'', status = FAILED,
                  records_requested = length (build_all_series soc_map),
                  records_received = length m, records_written = 0,
                  discrepancy_flag = True, error_message = Some e\<rparr>])"
proof -
  have l: "load_wage_rows (insert_fault env) (commit_fault env) (bls_wage_data db) m =
      (Inl e, bls_wage_data db)"
    using k by (rule load_wage_rows_rollback)
  from k(1) have pos: "0 < length m" "m \<noteq> []" by auto
  have st: "try_block env (bls_wage_data db) =
      \<lparr>rs_total_series = Some (length (build_all_series soc_map)), rs_received = length m,
       rs_written = 0, rs_series_gaps = g, rs_master = m, rs_table = bls_wage_data db,
       rs_raised = Some e\<rparr>"
    using c run l pos by (simp add: try_block_def Let_def)
  from pos show ?thesis
    by (simp add: l pipeline_run_def Let_def st log_pipeline_run_def)
qed

lemma meta_two_lookup:
  "series_meta_of (build_all_series cat_two) ''OEUM001242000000015125203'' = Some d_mean"
  by (simp add: series_meta_of_def build_all_series_def MSA_CODES_def DATA_TYPES_def
      cat_two_def mk_descriptor_def build_series_id_def msa_to_area_code_def soc_to_digits_def
      zfill_def remove_dashes_def INDUSTRY_CODE_def numeral_2_eq_2 d_mean_def)

lemma fetch_one_0:
  "fetch_bls_batch (http_one 0) =
     Inr (Some (response_json [series_json (series_id d_mean) ''2024'' ''125000'']))"
  by (simp add: http_one_def fetch_bls_batch_def response_json_def json_defs)

lemma response_keys_one:
  "response_keys 2024 (series_meta_of (build_all_series cat_two))
     (response_json [series_json (series_id d_mean) ''2024'' ''125000'']) =
     [(''15-1252'', ''12420'', 2024)]"
  by (simp add: response_keys_def response_series_def series_key_def series_value_def
      map_filter_simps response_json_def series_json_def example_descriptors meta_two_lookup
      safe_wage_examples point_year_example json_defs)

lemma batch_ok_one: "batch_ok 2024 (series_meta_of (build_all_series cat_two)) (http_one j)"
proof (cases "j = 0")
  case True
  then show ?thesis
    by (simp add: batch_ok_def fetch_one_0 parse_response_def parse_series_def series_value_def
        returned_ids_def returned_id_def response_json_def series_json_def example_descriptors
        meta_two_lookup safe_wage_examples point_year_example json_defs)
next
  case False
  then show ?thesis by (simp add: http_one_def batch_ok_no_series)
qed

lemma run_one:
  "\<exists>m g. run_batches 2024 (series_meta_of (build_all_series cat_two)) http_one 0
      (batches_of 25 (build_all_series cat_two)) ([], []) = (None, m, g) \<and> 0 < length m"
proof -
  let ?meta = "series_meta_of (build_all_series cat_two)"
  let ?batches = "batches_of 25 (build_all_series cat_two)"
  have "\<forall>j < length ?batches. batch_ok 2024 ?meta (http_one (0 + j))"
    by (simp add: batch_ok_one)
  from run_batches_all_ok [OF this] obtain m g where
    run: "run_batches 2024 ?meta http_one 0 ?batches ([], []) = (None, m, g)" by blast
  have n: "0 < length ?batches"
    by (simp add: batches_of_def length_build_all_series cat_two_def)
  from run_batches_keys_iff [OF run, of "(''15-1252'', ''12420'', 2024)"] n fetch_one_0
    response_keys_one
  have "(''15-1252'', ''12420'', 2024) \<in> fst ` set m" by force
  then have "0 < length m" by (cases m) auto
  with run show ?thesis by blast
qed

text \<open>
  C8 (as amended). When an insert of the load raises, \<open>load_wage_rows\<close> leaves the
  committed table as it was before the load and the exception propagates: the table of
  the run is unchanged, the status is FAILED with that exception, and the exit code is
  1. The audit log gets exactly one row, with the number of series requested, the
  number of records received, zero records written and the exception, unless the audit
  write raises itself: then the log is left as it was.
\<close>

theorem load_failure_is_fatal_and_audited:
  assumes "catalog env = Inr soc_map" and "soc_map \<noteq> []"
    and "run_batches (survey_year env) (series_meta_of (build_all_series soc_map)) (http env) 0
        (batches_of (BATCH_SIZE (regkey env)) (build_all_series soc_map)) ([], []) = (None, m, g)"
    and "k < length m" and "insert_fault env k (insert_record (snd (m ! k))) = Some e"
    and "\<forall>j < k. insert_fault env j (insert_record (snd (m ! j))) = None"
  shows "load_wage_rows (insert_fault env) (commit_fault env) (bls_wage_data db) m =
           (Inl e, bls_wage_data db)
         \<and> bls_wage_data (final_db (pipeline_run env db)) = bls_wage_data db
         \<and> final_status (pipeline_run env db) = FAILED
         \<and> error_msg (pipeline_run env db) = Some e
         \<and> exit_code (pipeline_run env db) = 1
         \<and> pipeline_run_log (final_db (pipeline_run env db)) =
             (if audit_fault env then pipeline_run_log db
              else pipeline_run_log db @
                [\<lparr>pipeline_type = ''BLS_OEWS'', status = FAILED,
                  records_requested = length (build_all_series soc_map),
                  records_received = length m, records_written = 0,
                  discrepancy_flag = True, error_message = Some e\<rparr>])"
  using assms by (rule run_with_failed_load)

theorem load_failure_is_fatal_and_audited_witness:
  "final_status (pipeline_run env_rejected db_empty) = FAILED
   \<and> error_msg (pipeline_run env_rejected db_empty) = Some (DatabaseError ''constraint violation'')
   \<and> exit_code (pipeline_run env_rejected db_empty) = 1
   \<and> bls_wage_data (final_db (pipeline_run env_rejected db_empty)) = []
   \<and> length (pipeline_run_log (final_db (pipeline_run env_rejected db_empty))) = 1"
proof -
  from run_one obtain m g where
    run: "run_batches 2024 (series_meta_of (build_all_series cat_two)) http_one 0
      (batches_of 25 (build_all_series cat_two)) ([], []) = (None, m, g)"
    and pos: "0 < length m" by blast
  have c: "catalog env_rejected = Inr cat_two" "cat_two \<noteq> []"
    by (simp_all add: env_rejected_def cat_two_def)
  have run': "run_batches (survey_year env_rejected) (series_meta_of (build_all_series cat_two))
      (http env_rejected) 0
      (batches_of (BATCH_SIZE (regkey env_rejected)) (build_all_series cat_two)) ([], []) =
      (None, m, g)"
    using run by (simp add: env_rejected_def BATCH_SIZE_def)
  have k: "insert_fault env_rejected 0 (insert_record (snd (m ! 0))) =
      Some (DatabaseError ''constraint violation'')"
    "\<forall>j < 0. insert_fault env_rejected j (insert_record (snd (m ! j))) = None"
    by (simp_all add: env_rejected_def)
  have a: "\<not> audit_fault env_rejected" by (simp add: env_rejected_def)
  from load_failure_is_fatal_and_audited [OF c run' pos k, of db_empty] a
  show ?thesis by (simp add: db_empty_def)
qed

text \<open>
  On a database that accepts no write, the insert raises and so does the audit write:
  the run is FAILED and no audit row is written.
\<close>

theorem load_failure_without_audit_row:
  "final_status (pipeline_run env_read_only db_empty) = FAILED
   \<and> error_msg (pipeline_run env_read_only db_empty) = Some (DatabaseError ''cannot execute INSERT in a read-only transaction'')
   \<and> pipeline_run_log (final_db (pipeline_run env_read_only db_empty)) = []"
proof -
  from run_one obtain m g where
    run: "run_batches 2024 (series_meta_of (build_all_series cat_two)) http_one 0
      (batches_of 25 (build_all_series cat_two)) ([], []) = (None, m, g)"
    and pos: "0 < length m" by blast
  have c: "catalog env_read_only = Inr cat_two" "cat_two \<noteq> []"
    by (simp_all add: env_read_only_def cat_two_def)
  have run': "run_batches (survey_year env_read_only) (series_meta_of (build_all_series cat_two))
      (http env_read_only) 0
      (batches_of (BATCH_SIZE (regkey env_read_only)) (build_all_series cat_two)) ([], []) =
      (None, m, g)"
    using run by (simp add: env_read_only_def BATCH_SIZE_def)
  have k: "insert_fault env_read_only 0 (insert_record (snd (m ! 0))) =
      Some (DatabaseError ''cannot execute INSERT in a read-only transaction'')"
    "\<forall>j < 0. insert_fault env_read_only j (insert_record (snd (m ! j))) = None"
    by (simp_all add: env_read_only_def)
  have a: "audit_fault env_read_only" by (simp add: env_read_only_def)
  from run_with_failed_load [OF c run' pos k, of db_empty] a
  show ?thesis by (simp add: db_empty_def)
qed

subsection \<open>Malformed content of a series\<close>




























subsection \<open>An exception of the batch loop\<close>













end
